theory Spec2Isabelle
  imports Main
begin

section \<open>Telegram digest: configuration lookups, summariser dispatch, digest assembly\<close>

text \<open>
  A shallow embedding of \<^verbatim>\<open>main.py\<close> (the configuration lookups and the
  \<^verbatim>\<open>get_digest\<close> request handler) and of \<^verbatim>\<open>summariser.py\<close> (message
  formatting and the dispatch on the summary type).

  Python dictionaries with a fixed set of keys are records; a key that the code reads with
  \<^verbatim>\<open>.get(key, default)\<close> or tests with \<^verbatim>\<open>key in d\<close> is an option-valued
  field, \<open>None\<close> standing for the absent key. The values are typed: a name, a title and
  a style are strings, a threshold and an unread count are integers, and every entry of the
  configuration has its \<^verbatim>\<open>name\<close>. (A configuration file that breaks this, say with
  a threshold that is not a number, makes the comparison raise outside of any
  \<^verbatim>\<open>try\<close>; such files are not modelled.) Strings are \<open>char list\<close>s. The Telegram
  client and the text generation service are functions held in a record; a call that can
  raise returns a sum, \<open>Inl\<close> carrying \<^verbatim>\<open>str(e)\<close> of the exception.
\<close>

subsection \<open>Strings\<close>

text \<open>
  \<^verbatim>\<open>str.lower()\<close>, on the letters A to Z. No proof below unfolds this definition
  except to evaluate an example, so every general theorem holds for any other
  case-folding function as well.
\<close>

definition lower_char :: "char \<Rightarrow> char" where
  "lower_char c =
     (let n = (of_char c :: nat) in if 65 \<le> n \<and> n \<le> 90 then char_of (n + 32) else c)"

definition lower :: "string \<Rightarrow> string" where
  "lower s = map lower_char s"

subsection \<open>The configuration document\<close>

text \<open>
  One element of a \<^verbatim>\<open>topics\<close> list of \<^verbatim>\<open>config.yaml\<close>; also the shape of the
  dictionary that \<^verbatim>\<open>get_topic_config\<close> builds from a \<^verbatim>\<open>default_type\<close>.
\<close>

record topic_config =
  tc_name :: string
  tc_type :: "string option"
  tc_threshold :: "int option"

text \<open>One element of the \<^verbatim>\<open>groups\<close> list.\<close>

record group_config =
  gc_name :: string
  gc_topics :: "topic_config list option"
  gc_default_type :: "string option"
  gc_type :: "string option"
  gc_threshold :: "int option"

text \<open>The module-level \<^verbatim>\<open>CONFIG\<close>; each of its keys may be absent.\<close>

record config =
  cfg_groups :: "group_config list option"
  cfg_excluded_groups :: "string list option"
  cfg_show_dm_counts :: "bool option"

text \<open>\<^verbatim>\<open>d.get(key, default)\<close>.\<close>

definition get_or :: "'a option \<Rightarrow> 'a \<Rightarrow> 'a" where
  "get_or v d = (case v of None \<Rightarrow> d | Some x \<Rightarrow> x)"

subsection \<open>Configuration lookups (\<^verbatim>\<open>main.py\<close>)\<close>

text \<open>The inner loop of \<^verbatim>\<open>get_topic_config\<close>: the first topic whose name matches.\<close>

fun find_topic :: "topic_config list \<Rightarrow> string \<Rightarrow> topic_config option" where
  "find_topic [] topic_name = None"
| "find_topic (topic # rest) topic_name =
     (if lower (tc_name topic) = lower topic_name then Some topic
      else find_topic rest topic_name)"

text \<open>
  The outer loop of \<^verbatim>\<open>get_topic_config\<close>. A group whose name matches returns from
  its topic list or from its \<^verbatim>\<open>default_type\<close>; when it has neither, the loop goes
  on to the next group.
\<close>

fun topic_config_scan :: "group_config list \<Rightarrow> string \<Rightarrow> string \<Rightarrow> topic_config option" where
  "topic_config_scan [] group_name topic_name = None"
| "topic_config_scan (grp # rest) group_name topic_name =
     (if lower (gc_name grp) = lower group_name then
        (case find_topic (get_or (gc_topics grp) []) topic_name of
           Some topic \<Rightarrow> Some topic
         | None \<Rightarrow>
            (case gc_default_type grp of
               Some dt \<Rightarrow>
                 Some \<lparr>tc_name = topic_name, tc_type = Some dt, tc_threshold = Some 1\<rparr>
             | None \<Rightarrow> topic_config_scan rest group_name topic_name))
      else topic_config_scan rest group_name topic_name)"

definition get_topic_config :: "config \<Rightarrow> string \<Rightarrow> string \<Rightarrow> topic_config option" where
  "get_topic_config cfg group_name topic_name =
     topic_config_scan (get_or (cfg_groups cfg) []) group_name topic_name"

fun configured_scan :: "group_config list \<Rightarrow> string \<Rightarrow> bool" where
  "configured_scan [] group_name = False"
| "configured_scan (grp # rest) group_name =
     (if lower (gc_name grp) = lower group_name then True
      else configured_scan rest group_name)"

definition is_configured_group :: "config \<Rightarrow> string \<Rightarrow> bool" where
  "is_configured_group cfg group_name = configured_scan (get_or (cfg_groups cfg) []) group_name"

fun group_config_scan :: "group_config list \<Rightarrow> string \<Rightarrow> group_config option" where
  "group_config_scan [] group_name = None"
| "group_config_scan (grp # rest) group_name =
     (if lower (gc_name grp) = lower group_name \<and> gc_type grp \<noteq> None then Some grp
      else group_config_scan rest group_name)"

definition get_group_config :: "config \<Rightarrow> string \<Rightarrow> group_config option" where
  "get_group_config cfg group_name = group_config_scan (get_or (cfg_groups cfg) []) group_name"

definition is_excluded_group :: "config \<Rightarrow> string \<Rightarrow> bool" where
  "is_excluded_group cfg group_name =
     (lower group_name \<in> set (map lower (get_or (cfg_excluded_groups cfg) [])))"

subsection \<open>Messages and their rendering (\<^verbatim>\<open>summariser.py\<close>)\<close>

text \<open>
  A message dictionary as \<^verbatim>\<open>telegram_client.py\<close> builds it. The summariser reads
  every key with \<^verbatim>\<open>.get\<close>, so every key but the identifier is optional here.
\<close>

record message =
  msg_id :: int
  msg_date :: "string option"
  msg_sender :: "string option"
  msg_text :: "string option"
  msg_has_media :: "bool option"
  msg_reply_to_id :: "int option"

text \<open>
  One iteration of the loop of \<^verbatim>\<open>format_messages_for_prompt\<close>: the line that a
  message contributes, if any. A reply target counts when it is present and not zero
  (Python truthiness), a text when it is not empty.
\<close>

definition format_message :: "message \<Rightarrow> string option" where
  "format_message msg =
     (let sender = get_or (msg_sender msg) ''Unknown'';
          text = get_or (msg_text msg) [];
          date = take 16 (get_or (msg_date msg) [])
      in if text \<noteq> [] then
           (let reply_note =
                  (if msg_reply_to_id msg \<noteq> None \<and> msg_reply_to_id msg \<noteq> Some 0
                   then '' [replying to earlier message]'' else [])
            in Some (''['' @ date @ ''] '' @ sender @ reply_note @ '': '' @ text))
         else if get_or (msg_has_media msg) False then
           Some (''['' @ date @ ''] '' @ sender @ '': [media/image]'')
         else None)"

text \<open>\<^verbatim>\<open>sep.join(parts)\<close>.\<close>

fun join :: "string \<Rightarrow> string list \<Rightarrow> string" where
  "join sep [] = []"
| "join sep [x] = x"
| "join sep (x # y # rest) = x @ sep @ join sep (y # rest)"

definition format_messages_for_prompt :: "message list \<Rightarrow> string" where
  "format_messages_for_prompt messages =
     join [CHR 0x0A] (List.map_filter format_message messages)"

subsection \<open>The text generation request\<close>

text \<open>
  The four prompt templates of \<^verbatim>\<open>summariser.py\<close>. A prompt is one of the
  templates with the topic name and the rendered messages put in; it is kept as these
  three parts instead of the expanded text. (The logistics template also carries the
  identifiers of the user, read once from the environment when the module is loaded; they
  are the same in every request of a process.)
\<close>

datatype template = Technical | Memes | Logistics | Invites

record llm_request =
  rq_model :: string
  rq_max_tokens :: nat
  rq_template :: template
  rq_topic_name :: string
  rq_messages_text :: string

subsection \<open>The conversation source\<close>

text \<open>An element of the lists of \<^verbatim>\<open>get_unread_summary\<close>.\<close>

record dialog_item =
  di_id :: int
  di_name :: string
  di_unread_count :: int

record unread_summary =
  us_dms :: "dialog_item list"
  us_groups :: "dialog_item list"
  us_supergroups :: "dialog_item list"

text \<open>
  An element of the list of \<^verbatim>\<open>get_group_topics\<close>; the assembler reads
  \<^verbatim>\<open>unread_count\<close> with a default of 0.
\<close>

record topic =
  tp_id :: int
  tp_title :: string
  tp_unread_count :: "int option"

text \<open>
  The collaborators of one request: the Telegram client \<^verbatim>\<open>tg_client\<close> and the
  generation backend \<^verbatim>\<open>client.messages.create\<close>, as they answer during this
  request; each is a function of the arguments of the call. The listing
  \<^verbatim>\<open>get_unread_summary\<close> is called outside of any \<^verbatim>\<open>try\<close> and can raise.
  \<^verbatim>\<open>get_group_topics\<close> catches every exception itself and returns an empty list,
  so it is total. The two message fetches are called inside a \<^verbatim>\<open>try\<close> of the
  assembler, so here they can fail with a value. (The client of this repository catches
  the exceptions of its two fetches as well and returns an empty list; the assembler does
  not rely on that, and with this client only the summariser reaches the handler.) The
  arguments of the fetches are the chat (and topic) identifier, the limit and the window in
  hours.
\<close>

record services =
  get_unread_summary :: "string + unread_summary"
  get_group_topics :: "int \<Rightarrow> topic list"
  get_topic_messages :: "int \<Rightarrow> int \<Rightarrow> nat \<Rightarrow> int \<Rightarrow> string + message list"
  get_chat_messages :: "int \<Rightarrow> nat \<Rightarrow> int \<Rightarrow> string + message list"
  messages_create :: "llm_request \<Rightarrow> string + string"

text \<open>The calls that a request makes to fetch messages and to generate text, in order.\<close>

datatype call =
  TopicMessages int int nat int
| ChatMessages int nat int
| MessagesCreate llm_request

subsection \<open>The summariser (\<^verbatim>\<open>summariser.py\<close>)\<close>

text \<open>
  Each function returns the backend requests it made together with its result: \<open>Inl\<close>
  when the backend call raised, \<open>Inr\<close> the returned string.
\<close>

definition summarise_technical ::
  "services \<Rightarrow> message list \<Rightarrow> string \<Rightarrow> llm_request list \<times> (string + string)" where
  "summarise_technical sv messages topic_name =
     (if messages = [] then ([], Inr ''No messages to summarise.'')
      else
        (let request = \<lparr>rq_model = ''claude-sonnet-4-20250514'', rq_max_tokens = 1000,
                          rq_template = Technical, rq_topic_name = topic_name,
                          rq_messages_text = format_messages_for_prompt messages\<rparr>
         in ([request], messages_create sv request)))"

definition summarise_memes ::
  "services \<Rightarrow> message list \<Rightarrow> string \<Rightarrow> llm_request list \<times> (string + string)" where
  "summarise_memes sv messages topic_name =
     (if messages = [] then ([], Inr ''No memes to report.'')
      else
        (let request = \<lparr>rq_model = ''claude-sonnet-4-20250514'', rq_max_tokens = 800,
                          rq_template = Memes, rq_topic_name = topic_name,
                          rq_messages_text = format_messages_for_prompt messages\<rparr>
         in ([request], messages_create sv request)))"

definition summarise_logistics ::
  "services \<Rightarrow> message list \<Rightarrow> string \<Rightarrow> llm_request list \<times> (string + string)" where
  "summarise_logistics sv messages topic_name =
     (if messages = [] then ([], Inr ''No messages to summarise.'')
      else
        (let request = \<lparr>rq_model = ''claude-sonnet-4-20250514'', rq_max_tokens = 800,
                          rq_template = Logistics, rq_topic_name = topic_name,
                          rq_messages_text = format_messages_for_prompt messages\<rparr>
         in ([request], messages_create sv request)))"

definition summarise_invites ::
  "services \<Rightarrow> message list \<Rightarrow> string \<Rightarrow> llm_request list \<times> (string + string)" where
  "summarise_invites sv messages topic_name =
     (if messages = [] then ([], Inr ''No invites to report.'')
      else
        (let request = \<lparr>rq_model = ''claude-sonnet-4-20250514'', rq_max_tokens = 500,
                          rq_template = Invites, rq_topic_name = topic_name,
                          rq_messages_text = format_messages_for_prompt messages\<rparr>
         in ([request], messages_create sv request)))"

text \<open>\<^verbatim>\<open>return await f(...)\<close>: the string becomes a present optional value.\<close>

definition returned :: "llm_request list \<times> (string + string) \<Rightarrow>
    llm_request list \<times> (string + string option)" where
  "returned r = (fst r, map_sum id Some (snd r))"

definition summarise ::
  "services \<Rightarrow> message list \<Rightarrow> string \<Rightarrow> string \<Rightarrow> llm_request list \<times> (string + string option)"
  where
  "summarise sv messages topic_name summary_type =
     (if summary_type = ''skip'' then ([], Inr None)
      else if summary_type = ''technical'' then returned (summarise_technical sv messages topic_name)
      else if summary_type = ''memes'' then returned (summarise_memes sv messages topic_name)
      else if summary_type = ''logistics'' then returned (summarise_logistics sv messages topic_name)
      else if summary_type = ''invites'' then returned (summarise_invites sv messages topic_name)
      else returned (summarise_logistics sv messages topic_name))"

subsection \<open>The digest (\<^verbatim>\<open>main.py\<close>)\<close>

record count_entry =
  ce_name :: string
  ce_count :: int

record forum_data =
  fd_name :: string
  fd_total_count :: int
  fd_topics :: "count_entry list"

record message_counts =
  mc_dms :: "count_entry list"
  mc_groups :: "count_entry list"
  mc_forums :: "forum_data list"

record summary =
  sm_group :: string
  sm_topic :: string
  sm_type :: string
  sm_message_count :: nat
  sm_summary :: string

record digest_response =
  dr_message_counts :: message_counts
  dr_summaries :: "summary list"
  dr_errors :: "string list"

text \<open>
  The two lists that \<^verbatim>\<open>get_digest\<close> appends to while it runs, and the calls it has
  made so far.
\<close>

record digest_state =
  ds_summaries :: "summary list"
  ds_errors :: "string list"
  ds_calls :: "call list"

text \<open>
  The \<^verbatim>\<open>try\<close> block of the topic loop: fetch the window of the topic and summarise
  it. An exception of the fetch or of the summariser ends the block with one more error
  string. A record is appended only for a non-empty window and a non-empty summary text.
\<close>

definition summarise_topic ::
  "services \<Rightarrow> int \<Rightarrow> dialog_item \<Rightarrow> topic \<Rightarrow> string \<Rightarrow> digest_state \<Rightarrow> digest_state" where
  "summarise_topic sv since_hours forum tp summary_type st =
     (let forum_name = di_name forum; forum_id = di_id forum;
          topic_name = tp_title tp; topic_id = tp_id tp;
          failed = (\<lambda>s e. s\<lparr>ds_errors := ds_errors s @
                      [''Error summarising '' @ forum_name @ ''/'' @ topic_name @ '': '' @ e]\<rparr>);
          st1 = st\<lparr>ds_calls := ds_calls st @ [TopicMessages forum_id topic_id 100 since_hours]\<rparr>
      in case get_topic_messages sv forum_id topic_id 100 since_hours of
           Inl e \<Rightarrow> failed st1 e
         | Inr messages \<Rightarrow>
             if messages \<noteq> [] then
               (let r = summarise sv messages topic_name summary_type;
                    st2 = st1\<lparr>ds_calls := ds_calls st1 @ map MessagesCreate (fst r)\<rparr>
                in case snd r of
                     Inl e \<Rightarrow> failed st2 e
                   | Inr None \<Rightarrow> st2
                   | Inr (Some summary_text) \<Rightarrow>
                       if summary_text \<noteq> [] then
                         st2\<lparr>ds_summaries := ds_summaries st2 @
                               [\<lparr>sm_group = forum_name, sm_topic = topic_name,
                                 sm_type = summary_type, sm_message_count = length messages,
                                 sm_summary = summary_text\<rparr>]\<rparr>
                       else st2)
             else st1)"

text \<open>
  The body of \<^verbatim>\<open>for topic in topics\<close>. The first component of the state is
  \<^verbatim>\<open>forum_data["topics"]\<close>.
\<close>

definition process_topic ::
  "config \<Rightarrow> services \<Rightarrow> int \<Rightarrow> dialog_item \<Rightarrow> count_entry list \<times> digest_state \<Rightarrow> topic \<Rightarrow>
     count_entry list \<times> digest_state" where
  "process_topic cfg sv since_hours forum acc tp =
     (let forum_name = di_name forum;
          topic_name = tp_title tp;
          unread_count = get_or (tp_unread_count tp) 0;
          topics = fst acc @ [\<lparr>ce_name = topic_name, ce_count = unread_count\<rparr>];
          st = snd acc
      in if \<not> is_configured_group cfg forum_name then (topics, st)
         else
           (case get_topic_config cfg forum_name topic_name of
              None \<Rightarrow> (topics, st)
            | Some topic_config \<Rightarrow>
               (let summary_type = get_or (tc_type topic_config) ''skip'';
                    threshold = get_or (tc_threshold topic_config) 1
                in if summary_type = ''skip'' then (topics, st)
                   else if unread_count < threshold then (topics, st)
                   else (topics, summarise_topic sv since_hours forum tp summary_type st))))"

text \<open>
  The body of \<^verbatim>\<open>for forum in unread["supergroups"]\<close>. The first component of the
  state is \<^verbatim>\<open>message_counts["forums"]\<close>.
\<close>

definition process_forum ::
  "config \<Rightarrow> services \<Rightarrow> int \<Rightarrow> forum_data list \<times> digest_state \<Rightarrow> dialog_item \<Rightarrow>
     forum_data list \<times> digest_state" where
  "process_forum cfg sv since_hours acc forum =
     (let forum_name = di_name forum
      in if is_excluded_group cfg forum_name then acc
         else
           (let topics = get_group_topics sv (di_id forum);
                r = foldl (process_topic cfg sv since_hours forum) ([], snd acc) topics
            in (fst acc @ [\<lparr>fd_name = forum_name, fd_total_count = di_unread_count forum,
                             fd_topics = fst r\<rparr>],
                snd r)))"

text \<open>The \<^verbatim>\<open>try\<close> block of the loop over the plain groups.\<close>

definition summarise_group ::
  "services \<Rightarrow> int \<Rightarrow> dialog_item \<Rightarrow> string \<Rightarrow> digest_state \<Rightarrow> digest_state" where
  "summarise_group sv since_hours grp summary_type st =
     (let group_name = di_name grp; group_id = di_id grp;
          failed = (\<lambda>s e. s\<lparr>ds_errors := ds_errors s @
                      [''Error summarising '' @ group_name @ '': '' @ e]\<rparr>);
          st1 = st\<lparr>ds_calls := ds_calls st @ [ChatMessages group_id 100 since_hours]\<rparr>
      in case get_chat_messages sv group_id 100 since_hours of
           Inl e \<Rightarrow> failed st1 e
         | Inr messages \<Rightarrow>
             if messages \<noteq> [] then
               (let r = summarise sv messages group_name summary_type;
                    st2 = st1\<lparr>ds_calls := ds_calls st1 @ map MessagesCreate (fst r)\<rparr>
                in case snd r of
                     Inl e \<Rightarrow> failed st2 e
                   | Inr None \<Rightarrow> st2
                   | Inr (Some summary_text) \<Rightarrow>
                       if summary_text \<noteq> [] then
                         st2\<lparr>ds_summaries := ds_summaries st2 @
                               [\<lparr>sm_group = group_name, sm_topic = ''(all)'',
                                 sm_type = summary_type, sm_message_count = length messages,
                                 sm_summary = summary_text\<rparr>]\<rparr>
                       else st2)
             else st1)"

text \<open>The body of \<^verbatim>\<open>for group in unread["groups"]\<close>.\<close>

definition process_group ::
  "config \<Rightarrow> services \<Rightarrow> int \<Rightarrow> digest_state \<Rightarrow> dialog_item \<Rightarrow> digest_state" where
  "process_group cfg sv since_hours st grp =
     (let group_name = di_name grp;
          unread_count = di_unread_count grp
      in if is_excluded_group cfg group_name then st
         else
           (case get_group_config cfg group_name of
              None \<Rightarrow> st
            | Some group_config \<Rightarrow>
               (let summary_type = get_or (gc_type group_config) ''skip'';
                    threshold = get_or (gc_threshold group_config) 1
                in if summary_type = ''skip'' then st
                   else if unread_count < threshold then st
                   else summarise_group sv since_hours grp summary_type st)))"

text \<open>
  \<^verbatim>\<open>get_digest\<close> from the listing on: the counts, then the loop over the forums, then
  the loop over the plain groups. The result is the message counts and the final state.
\<close>

definition count_of :: "dialog_item \<Rightarrow> count_entry" where
  "count_of d = \<lparr>ce_name = di_name d, ce_count = di_unread_count d\<rparr>"

definition assemble ::
  "config \<Rightarrow> services \<Rightarrow> unread_summary \<Rightarrow> int \<Rightarrow> message_counts \<times> digest_state" where
  "assemble cfg sv unread since_hours =
     (let show_dms = get_or (cfg_show_dm_counts cfg) True;
          dms = (if show_dms then map count_of (us_dms unread) else []);
          groups = map count_of
                     (filter (\<lambda>g. \<not> is_excluded_group cfg (di_name g)) (us_groups unread));
          st0 = \<lparr>ds_summaries = [], ds_errors = [], ds_calls = []\<rparr>;
          r = foldl (process_forum cfg sv since_hours) ([], st0) (us_supergroups unread);
          st = foldl (process_group cfg sv since_hours) (snd r) (us_groups unread)
      in (\<lparr>mc_dms = dms, mc_groups = groups, mc_forums = fst r\<rparr>, st))"

text \<open>
  What a request can end with instead of a response: the
  \<^verbatim>\<open>HTTPException\<close> raised when there is no client, or the exception of the listing,
  which nothing catches.
\<close>

datatype failure = HTTPException nat string | Unhandled string

definition get_digest :: "config \<Rightarrow> services option \<Rightarrow> int \<Rightarrow> failure + digest_response" where
  "get_digest cfg tg_client since_hours =
     (case tg_client of
        None \<Rightarrow> Inl (HTTPException 500 ''Telegram client not connected'')
      | Some sv \<Rightarrow>
         (case get_unread_summary sv of
            Inl e \<Rightarrow> Inl (Unhandled e)
          | Inr unread \<Rightarrow>
             (let r = assemble cfg sv unread since_hours
              in Inr \<lparr>dr_message_counts = fst r, dr_summaries = ds_summaries (snd r),
                      dr_errors = ds_errors (snd r)\<rparr>)))"

text \<open>The calls made by a request that got its listing.\<close>

definition digest_calls :: "config \<Rightarrow> services \<Rightarrow> unread_summary \<Rightarrow> int \<Rightarrow> call list" where
  "digest_calls cfg sv unread since_hours = ds_calls (snd (assemble cfg sv unread since_hours))"

subsection \<open>What one topic and one group contribute\<close>

text \<open>
  The state of a request only grows: each pass of a loop appends to the summaries, the
  errors and the calls. What a topic or a group appends is what its pass yields when it
  starts from the empty state; the lemmas below show that the final state is these
  contributions put one after the other.
\<close>

definition empty_state :: digest_state where
  "empty_state = \<lparr>ds_summaries = [], ds_errors = [], ds_calls = []\<rparr>"

definition append_state :: "digest_state \<Rightarrow> digest_state \<Rightarrow> digest_state" where
  "append_state st d =
     \<lparr>ds_summaries = ds_summaries st @ ds_summaries d, ds_errors = ds_errors st @ ds_errors d,
      ds_calls = ds_calls st @ ds_calls d\<rparr>"

definition concat_states :: "digest_state list \<Rightarrow> digest_state" where
  "concat_states ds = foldr append_state ds empty_state"

definition topic_contribution ::
  "config \<Rightarrow> services \<Rightarrow> int \<Rightarrow> dialog_item \<Rightarrow> topic \<Rightarrow> digest_state" where
  "topic_contribution cfg sv since_hours forum tp =
     snd (process_topic cfg sv since_hours forum ([], empty_state) tp)"

definition group_contribution ::
  "config \<Rightarrow> services \<Rightarrow> int \<Rightarrow> dialog_item \<Rightarrow> digest_state" where
  "group_contribution cfg sv since_hours grp = process_group cfg sv since_hours empty_state grp"

text \<open>The count entries that the loops build, and the forums and topics they visit.\<close>

definition topic_count :: "topic \<Rightarrow> count_entry" where
  "topic_count tp = \<lparr>ce_name = tp_title tp, ce_count = get_or (tp_unread_count tp) 0\<rparr>"

definition forum_count :: "services \<Rightarrow> dialog_item \<Rightarrow> forum_data" where
  "forum_count sv forum =
     \<lparr>fd_name = di_name forum, fd_total_count = di_unread_count forum,
      fd_topics = map topic_count (get_group_topics sv (di_id forum))\<rparr>"

definition listed_forums :: "config \<Rightarrow> unread_summary \<Rightarrow> dialog_item list" where
  "listed_forums cfg unread =
     filter (\<lambda>f. \<not> is_excluded_group cfg (di_name f)) (us_supergroups unread)"

definition forum_topics :: "config \<Rightarrow> services \<Rightarrow> unread_summary \<Rightarrow> (dialog_item \<times> topic) list" where
  "forum_topics cfg sv unread =
     concat (map (\<lambda>f. map (Pair f) (get_group_topics sv (di_id f))) (listed_forums cfg unread))"

text \<open>
  The policy of a topic or a group as the loops read it: the style (\<^verbatim>\<open>"skip"\<close> when
  the entry has no \<^verbatim>\<open>type\<close>) and the threshold (1 when the entry has none). A topic
  or group is eligible when the loop reaches its \<^verbatim>\<open>try\<close> block.
\<close>

definition resolve_topic :: "config \<Rightarrow> string \<Rightarrow> string \<Rightarrow> (string \<times> int) option" where
  "resolve_topic cfg forum_name topic_name =
     map_option (\<lambda>tc. (get_or (tc_type tc) ''skip'', get_or (tc_threshold tc) 1))
       (get_topic_config cfg forum_name topic_name)"

definition eligible_topic :: "config \<Rightarrow> dialog_item \<Rightarrow> topic \<Rightarrow> bool" where
  "eligible_topic cfg forum tp =
     (case resolve_topic cfg (di_name forum) (tp_title tp) of
        None \<Rightarrow> False
      | Some (ty, th) \<Rightarrow> ty \<noteq> ''skip'' \<and> th \<le> get_or (tp_unread_count tp) 0)"

definition resolve_group :: "config \<Rightarrow> string \<Rightarrow> (string \<times> int) option" where
  "resolve_group cfg group_name =
     map_option (\<lambda>g. (get_or (gc_type g) ''skip'', get_or (gc_threshold g) 1))
       (get_group_config cfg group_name)"

definition eligible_group :: "config \<Rightarrow> dialog_item \<Rightarrow> bool" where
  "eligible_group cfg grp =
     (\<not> is_excluded_group cfg (di_name grp) \<and>
      (case resolve_group cfg (di_name grp) of
         None \<Rightarrow> False
       | Some (ty, th) \<Rightarrow> ty \<noteq> ''skip'' \<and> th \<le> di_unread_count grp))"





subsection \<open>A worked request\<close>

text \<open>
  A configuration with one forum (two listed topics, default \<^verbatim>\<open>skip\<close>), one plain
  group with an unknown style and one excluded name; a listing with two direct messages,
  three groups and three forums.
\<close>

definition example_config :: config where
  "example_config =
     \<lparr>cfg_groups = Some
        [\<lparr>gc_name = ''Team'',
          gc_topics = Some
            [\<lparr>tc_name = ''Eng'', tc_type = Some ''technical'', tc_threshold = Some 3\<rparr>,
             \<lparr>tc_name = ''Design'', tc_type = Some ''memes'', tc_threshold = Some 8\<rparr>],
          gc_default_type = Some ''skip'', gc_type = None, gc_threshold = None\<rparr>,
         \<lparr>gc_name = ''Chat'', gc_topics = None, gc_default_type = None,
          gc_type = Some ''bogus-style'', gc_threshold = Some 2\<rparr>],
      cfg_excluded_groups = Some [''Spam''],
      cfg_show_dm_counts = Some False\<rparr>"

definition team_forum :: dialog_item where
  "team_forum = \<lparr>di_id = 10, di_name = ''Team'', di_unread_count = 17\<rparr>"

definition hobby_forum :: dialog_item where
  "hobby_forum = \<lparr>di_id = 12, di_name = ''Hobby'', di_unread_count = 2\<rparr>"

definition chat_group :: dialog_item where
  "chat_group = \<lparr>di_id = 20, di_name = ''chat'', di_unread_count = 4\<rparr>"

definition family_group :: dialog_item where
  "family_group = \<lparr>di_id = 22, di_name = ''Family'', di_unread_count = 3\<rparr>"

definition example_unread :: unread_summary where
  "example_unread =
     \<lparr>us_dms = [\<lparr>di_id = 1, di_name = ''Alice'', di_unread_count = 2\<rparr>,
                \<lparr>di_id = 2, di_name = ''Bob'', di_unread_count = 1\<rparr>],
      us_groups = [chat_group, \<lparr>di_id = 21, di_name = ''SPAM'', di_unread_count = 9\<rparr>,
                   family_group],
      us_supergroups = [team_forum, \<lparr>di_id = 11, di_name = ''spam'', di_unread_count = 7\<rparr>,
                        hobby_forum]\<rparr>"

definition eng_topic :: topic where
  "eng_topic = \<lparr>tp_id = 1, tp_title = ''Eng'', tp_unread_count = Some 5\<rparr>"

definition random_topic :: topic where
  "random_topic = \<lparr>tp_id = 2, tp_title = ''Random'', tp_unread_count = Some 10\<rparr>"

definition design_topic :: topic where
  "design_topic = \<lparr>tp_id = 3, tp_title = ''design'', tp_unread_count = Some 2\<rparr>"

definition misc_topic :: topic where
  "misc_topic = \<lparr>tp_id = 1, tp_title = ''Misc'', tp_unread_count = Some 2\<rparr>"

definition text_message :: "int \<Rightarrow> string \<Rightarrow> string \<Rightarrow> message" where
  "text_message i sender text =
     \<lparr>msg_id = i, msg_date = Some ''2024-01-15T10:00:00+00:00'', msg_sender = Some sender,
      msg_text = Some text, msg_has_media = Some False, msg_reply_to_id = None\<rparr>"

definition eng_window :: "message list" where
  "eng_window = [text_message 7 ''Ann'' ''ship it'', text_message 6 ''Ben'' ''tests pass'']"

definition chat_window :: "message list" where
  "chat_window = [text_message 3 ''Cy'' ''lunch?'']"

definition example_services :: services where
  "example_services =
     \<lparr>get_unread_summary = Inr example_unread,
      get_group_topics = (\<lambda>group_id.
         if group_id = 10 then [eng_topic, random_topic, design_topic]
         else if group_id = 11 then
           [\<lparr>tp_id = 1, tp_title = ''General'', tp_unread_count = Some 7\<rparr>]
         else if group_id = 12 then [misc_topic]
         else []),
      get_topic_messages = (\<lambda>group_id topic_id limit since_hours.
         if group_id = 10 \<and> topic_id = 1 then Inr eng_window else Inr []),
      get_chat_messages = (\<lambda>chat_id limit since_hours.
         if chat_id = 20 then Inr chat_window else Inr []),
      messages_create = (\<lambda>request. Inr (''About '' @ rq_topic_name request))\<rparr>"


text \<open>The same request when every window is empty.\<close>

definition quiet_services :: services where
  "quiet_services =
     example_services\<lparr>get_topic_messages := (\<lambda>group_id topic_id limit since_hours. Inr []),
                       get_chat_messages := (\<lambda>chat_id limit since_hours. Inr [])\<rparr>"

text \<open>The response to the worked request.\<close>

definition example_digest :: digest_response where
  "example_digest =
     \<lparr>dr_message_counts =
        \<lparr>mc_dms = [],
         mc_groups = [\<lparr>ce_name = ''chat'', ce_count = 4\<rparr>, \<lparr>ce_name = ''Family'', ce_count = 3\<rparr>],
         mc_forums =
           [\<lparr>fd_name = ''Team'', fd_total_count = 17,
             fd_topics = [\<lparr>ce_name = ''Eng'', ce_count = 5\<rparr>, \<lparr>ce_name = ''Random'', ce_count = 10\<rparr>,
                          \<lparr>ce_name = ''design'', ce_count = 2\<rparr>]\<rparr>,
            \<lparr>fd_name = ''Hobby'', fd_total_count = 2,
             fd_topics = [\<lparr>ce_name = ''Misc'', ce_count = 2\<rparr>]\<rparr>]\<rparr>,
      dr_summaries =
        [\<lparr>sm_group = ''Team'', sm_topic = ''Eng'', sm_type = ''technical'', sm_message_count = 2,
          sm_summary = ''About Eng''\<rparr>,
         \<lparr>sm_group = ''chat'', sm_topic = ''(all)'', sm_type = ''bogus-style'',
          sm_message_count = 1, sm_summary = ''About chat''\<rparr>],
      dr_errors = []\<rparr>"

subsection \<open>Further configurations\<close>

text \<open>
  Two entries whose names agree up to case, the first with a default style only, the second
  with the topic list.
\<close>

definition duplicate_config :: config where
  "duplicate_config =
     \<lparr>cfg_groups = Some
        [\<lparr>gc_name = ''Team'', gc_topics = None, gc_default_type = Some ''memes'',
          gc_type = None, gc_threshold = None\<rparr>,
         \<lparr>gc_name = ''team'',
          gc_topics = Some
            [\<lparr>tc_name = ''Eng'', tc_type = Some ''technical'', tc_threshold = Some 3\<rparr>],
          gc_default_type = None, gc_type = None, gc_threshold = None\<rparr>],
      cfg_excluded_groups = None,
      cfg_show_dm_counts = None\<rparr>"

text \<open>An entry that carries both a direct style and a topic list.\<close>

definition mixed_entry :: group_config where
  "mixed_entry =
     \<lparr>gc_name = ''Chat'',
      gc_topics = Some
        [\<lparr>tc_name = ''General'', tc_type = Some ''memes'', tc_threshold = Some 5\<rparr>],
      gc_default_type = None, gc_type = Some ''technical'', gc_threshold = Some 2\<rparr>"

definition mixed_config :: config where
  "mixed_config =
     \<lparr>cfg_groups = Some [mixed_entry], cfg_excluded_groups = None, cfg_show_dm_counts = None\<rparr>"

subsection \<open>The logistics request\<close>

text \<open>The request that \<^verbatim>\<open>summarise_logistics\<close> sends for a topic name and a window.\<close>

definition logistics_request :: "string \<Rightarrow> message list \<Rightarrow> llm_request" where
  "logistics_request topic_name messages =
     \<lparr>rq_model = ''claude-sonnet-4-20250514'', rq_max_tokens = 800, rq_template = Logistics,
      rq_topic_name = topic_name, rq_messages_text = format_messages_for_prompt messages\<rparr>"

text \<open>A configuration whose only listed topic has a style that is not one of the five.\<close>

definition bogus_config :: config where
  "bogus_config =
     \<lparr>cfg_groups = Some
        [\<lparr>gc_name = ''Team'',
          gc_topics = Some
            [\<lparr>tc_name = ''Eng'', tc_type = Some ''bogus-style'', tc_threshold = Some 3\<rparr>],
          gc_default_type = Some ''skip'', gc_type = None, gc_threshold = None\<rparr>],
      cfg_excluded_groups = None,
      cfg_show_dm_counts = None\<rparr>"

section \<open>The state only grows\<close>

lemma append_state_empty [simp]: "append_state st empty_state = st" "append_state empty_state st = st"
  by (simp_all add: append_state_def empty_state_def)

lemma empty_state_sel [simp]:
  "ds_summaries empty_state = []" "ds_errors empty_state = []" "ds_calls empty_state = []"
  by (simp_all add: empty_state_def)

lemma append_state_assoc: "append_state (append_state a b) c = append_state a (append_state b c)"
  by (simp add: append_state_def)

lemma append_state_sel [simp]:
  "ds_summaries (append_state a b) = ds_summaries a @ ds_summaries b"
  "ds_errors (append_state a b) = ds_errors a @ ds_errors b"
  "ds_calls (append_state a b) = ds_calls a @ ds_calls b"
  by (simp_all add: append_state_def)

lemma summarise_topic_append:
  "summarise_topic sv since forum tp ty st =
     append_state st (summarise_topic sv since forum tp ty empty_state)"
  by (simp add: summarise_topic_def append_state_def empty_state_def Let_def
           split: sum.splits option.splits)

lemma summarise_group_append:
  "summarise_group sv since grp ty st =
     append_state st (summarise_group sv since grp ty empty_state)"
  by (simp add: summarise_group_def append_state_def empty_state_def Let_def
           split: sum.splits option.splits)

lemma process_topic_fst:
  "fst (process_topic cfg sv since forum acc tp) = fst acc @ [topic_count tp]"
  by (simp add: process_topic_def topic_count_def Let_def split: option.splits)

lemma process_topic_snd:
  "snd (process_topic cfg sv since forum acc tp) =
     append_state (snd acc) (topic_contribution cfg sv since forum tp)"
  unfolding topic_contribution_def process_topic_def Let_def
  using summarise_topic_append [of sv since forum tp _ "snd acc"]
  by (simp split: option.splits)

lemma process_group_append:
  "process_group cfg sv since st grp =
     append_state st (group_contribution cfg sv since grp)"
  unfolding group_contribution_def process_group_def Let_def
  using summarise_group_append [of sv since grp _ st]
  by (simp split: option.splits)

lemma concat_states_simps [simp]:
  "concat_states [] = empty_state"
  "concat_states (d # ds) = append_state d (concat_states ds)"
  by (simp_all add: concat_states_def)

lemma concat_states_append:
  "concat_states (xs @ ys) = append_state (concat_states xs) (concat_states ys)"
  by (induction xs) (simp_all add: append_state_assoc)

lemma concat_states_sel:
  "ds_summaries (concat_states ds) = concat (map ds_summaries ds)"
  "ds_errors (concat_states ds) = concat (map ds_errors ds)"
  "ds_calls (concat_states ds) = concat (map ds_calls ds)"
  by (induction ds) simp_all

lemma topics_loop:
  "foldl (process_topic cfg sv since forum) acc tps =
     (fst acc @ map topic_count tps,
      append_state (snd acc) (concat_states (map (topic_contribution cfg sv since forum) tps)))"
proof (induction tps arbitrary: acc)
  case Nil
  show ?case by simp
next
  case (Cons tp tps)
  show ?case
    by (simp add: Cons.IH process_topic_fst process_topic_snd append_state_assoc)
qed

lemma process_forum_eq:
  "process_forum cfg sv since acc forum =
     (if is_excluded_group cfg (di_name forum) then acc
      else (fst acc @ [forum_count sv forum],
            append_state (snd acc)
              (concat_states (map (topic_contribution cfg sv since forum)
                                  (get_group_topics sv (di_id forum))))))"
  by (simp add: process_forum_def Let_def topics_loop forum_count_def)

lemma forums_loop:
  "foldl (process_forum cfg sv since) acc forums =
     (fst acc @ map (forum_count sv) (filter (\<lambda>f. \<not> is_excluded_group cfg (di_name f)) forums),
      append_state (snd acc)
        (concat_states
           (map (\<lambda>(f, tp). topic_contribution cfg sv since f tp)
              (concat (map (\<lambda>f. map (Pair f) (get_group_topics sv (di_id f)))
                 (filter (\<lambda>f. \<not> is_excluded_group cfg (di_name f)) forums))))))"
proof (induction forums arbitrary: acc)
  case Nil
  show ?case by simp
next
  case (Cons f forums)
  have step: "foldl (process_forum cfg sv since) acc (f # forums) =
        foldl (process_forum cfg sv since) (process_forum cfg sv since acc f) forums"
    by simp
  show ?case
    unfolding step Cons.IH
    by (simp add: process_forum_eq [of cfg sv since acc f] concat_states_append
          append_state_assoc comp_def)
qed

lemma groups_loop:
  "foldl (process_group cfg sv since) st grps =
     append_state st (concat_states (map (group_contribution cfg sv since) grps))"
proof (induction grps arbitrary: st)
  case Nil
  show ?case by simp
next
  case (Cons g grps)
  show ?case
    by (simp add: Cons.IH append_state_assoc)
       (simp add: process_group_append [of cfg sv since st g])
qed

lemma assemble_state:
  "snd (assemble cfg sv unread since) =
     concat_states
       (map (\<lambda>(f, tp). topic_contribution cfg sv since f tp) (forum_topics cfg sv unread) @
        map (group_contribution cfg sv since) (us_groups unread))"
  by (simp add: assemble_def Let_def forums_loop groups_loop concat_states_append
        forum_topics_def listed_forums_def empty_state_def [symmetric])

lemma assemble_counts:
  "fst (assemble cfg sv unread since) =
     \<lparr>mc_dms = (if get_or (cfg_show_dm_counts cfg) True then map count_of (us_dms unread) else []),
      mc_groups = map count_of
                    (filter (\<lambda>g. \<not> is_excluded_group cfg (di_name g)) (us_groups unread)),
      mc_forums = map (forum_count sv) (listed_forums cfg unread)\<rparr>"
  by (simp add: assemble_def Let_def forums_loop listed_forums_def)

section \<open>Contributions by policy\<close>

lemma topic_config_scan_configured:
  "topic_config_scan gs gn tn = Some tc \<Longrightarrow> configured_scan gs gn"
  by (induction gs) (auto split: if_splits)

lemma get_topic_config_configured:
  "get_topic_config cfg gn tn = Some tc \<Longrightarrow> is_configured_group cfg gn"
  by (simp add: get_topic_config_def is_configured_group_def topic_config_scan_configured)

lemma topic_contribution_eq:
  "topic_contribution cfg sv since forum tp =
     (case resolve_topic cfg (di_name forum) (tp_title tp) of
        None \<Rightarrow> empty_state
      | Some (ty, th) \<Rightarrow>
          if ty \<noteq> ''skip'' \<and> th \<le> get_or (tp_unread_count tp) 0
          then summarise_topic sv since forum tp ty empty_state else empty_state)"
proof (cases "get_topic_config cfg (di_name forum) (tp_title tp)")
  case None
  then show ?thesis
    by (simp add: topic_contribution_def process_topic_def resolve_topic_def Let_def)
next
  case (Some tc)
  then have "is_configured_group cfg (di_name forum)"
    by (rule get_topic_config_configured)
  with Some show ?thesis
    by (simp add: topic_contribution_def process_topic_def resolve_topic_def Let_def not_less)
qed

lemma group_contribution_eq:
  "group_contribution cfg sv since grp =
     (if is_excluded_group cfg (di_name grp) then empty_state
      else case resolve_group cfg (di_name grp) of
        None \<Rightarrow> empty_state
      | Some (ty, th) \<Rightarrow>
          if ty \<noteq> ''skip'' \<and> th \<le> di_unread_count grp
          then summarise_group sv since grp ty empty_state else empty_state)"
  by (simp add: group_contribution_def process_group_def resolve_group_def Let_def not_less
        split: option.splits)

lemma topic_contribution_not_eligible:
  "\<not> eligible_topic cfg forum tp \<Longrightarrow> topic_contribution cfg sv since forum tp = empty_state"
  by (auto simp: topic_contribution_eq eligible_topic_def split: option.splits)

lemma group_contribution_not_eligible:
  "\<not> eligible_group cfg grp \<Longrightarrow> group_contribution cfg sv since grp = empty_state"
  by (auto simp: group_contribution_eq eligible_group_def split: option.splits)

lemma summarise_topic_summary:
  assumes "s \<in> set (ds_summaries (summarise_topic sv since forum tp ty empty_state))"
  shows "\<exists>messages text.
           get_topic_messages sv (di_id forum) (tp_id tp) 100 since = Inr messages \<and>
           messages \<noteq> [] \<and>
           snd (summarise sv messages (tp_title tp) ty) = Inr (Some text) \<and> text \<noteq> [] \<and>
           s = \<lparr>sm_group = di_name forum, sm_topic = tp_title tp, sm_type = ty,
                sm_message_count = length messages, sm_summary = text\<rparr>"
  using assms
  by (auto simp: summarise_topic_def Let_def split: sum.splits option.splits if_splits)

lemma summarise_group_summary:
  assumes "s \<in> set (ds_summaries (summarise_group sv since grp ty empty_state))"
  shows "\<exists>messages text.
           get_chat_messages sv (di_id grp) 100 since = Inr messages \<and>
           messages \<noteq> [] \<and>
           snd (summarise sv messages (di_name grp) ty) = Inr (Some text) \<and> text \<noteq> [] \<and>
           s = \<lparr>sm_group = di_name grp, sm_topic = ''(all)'', sm_type = ty,
                sm_message_count = length messages, sm_summary = text\<rparr>"
  using assms
  by (auto simp: summarise_group_def Let_def split: sum.splits option.splits if_splits)

lemma forum_topics_iff:
  "(f, tp) \<in> set (forum_topics cfg sv unread) \<longleftrightarrow>
     f \<in> set (us_supergroups unread) \<and> \<not> is_excluded_group cfg (di_name f) \<and>
     tp \<in> set (get_group_topics sv (di_id f))"
  by (auto simp: forum_topics_def listed_forums_def)

lemma digest_summary_cases:
  assumes "s \<in> set (ds_summaries (snd (assemble cfg sv unread since)))"
  shows "(\<exists>f tp. (f, tp) \<in> set (forum_topics cfg sv unread) \<and>
            s \<in> set (ds_summaries (topic_contribution cfg sv since f tp))) \<or>
         (\<exists>g. g \<in> set (us_groups unread) \<and>
            s \<in> set (ds_summaries (group_contribution cfg sv since g)))"
  using assms by (auto simp: assemble_state concat_states_sel)

lemma get_digest_Inr:
  assumes "get_digest cfg tg since = Inr d"
  obtains sv unread where "tg = Some sv" and "get_unread_summary sv = Inr unread"
    and "dr_message_counts d = fst (assemble cfg sv unread since)"
    and "dr_summaries d = ds_summaries (snd (assemble cfg sv unread since))"
    and "dr_errors d = ds_errors (snd (assemble cfg sv unread since))"
  using assms
  by (auto simp: get_digest_def Let_def split: option.splits sum.splits)

lemma topic_summary_source:
  assumes "s \<in> set (ds_summaries (topic_contribution cfg sv since f tp))"
  shows "eligible_topic cfg f tp \<and> sm_group s = di_name f \<and> sm_topic s = tp_title tp"
proof -
  from assms have el: "eligible_topic cfg f tp"
    by (auto intro: ccontr simp: topic_contribution_not_eligible)
  from assms obtain ty where
    "s \<in> set (ds_summaries (summarise_topic sv since f tp ty empty_state))"
    by (auto simp: topic_contribution_eq split: option.splits if_splits)
  from summarise_topic_summary [OF this]
  have "sm_group s = di_name f \<and> sm_topic s = tp_title tp"
    by auto
  with el show ?thesis by simp
qed

lemma group_summary_source:
  assumes "s \<in> set (ds_summaries (group_contribution cfg sv since g))"
  shows "eligible_group cfg g \<and> sm_group s = di_name g \<and> sm_topic s = ''(all)''"
proof -
  from assms have el: "eligible_group cfg g"
    by (auto intro: ccontr simp: group_contribution_not_eligible)
  from assms obtain ty where
    "s \<in> set (ds_summaries (summarise_group sv since g ty empty_state))"
    by (auto simp: group_contribution_eq split: option.splits if_splits)
  from summarise_group_summary [OF this]
  have "sm_group s = di_name g \<and> sm_topic s = ''(all)''"
    by auto
  with el show ?thesis by simp
qed

lemma eligible_group_not_excluded:
  "eligible_group cfg g \<Longrightarrow> \<not> is_excluded_group cfg (di_name g)"
  by (simp add: eligible_group_def)

section \<open>The worked request\<close>

lemma example_digest_eq: "get_digest example_config (Some example_services) 24 = Inr example_digest"
  by code_simp

section \<open>Excluded conversations\<close>

text \<open>
  Claim C1. A conversation whose name equals, up to case, a name of the exclusion list has
  no entry among the group counts, no entry among the forum counts, and no summary record
  naming it as its group, in any digest that a request returns.
\<close>

theorem excluded_conversation_absent:
  assumes "x \<in> set (get_or (cfg_excluded_groups cfg) [])" and "lower x = lower n"
    and "get_digest cfg tg since = Inr d"
  shows "n \<notin> ce_name ` set (mc_groups (dr_message_counts d)) \<and>
         n \<notin> fd_name ` set (mc_forums (dr_message_counts d)) \<and>
         n \<notin> sm_group ` set (dr_summaries d)"
proof -
  have "lower n \<in> lower ` set (get_or (cfg_excluded_groups cfg) [])"
    using assms(1,2) by (metis imageI)
  then have excl: "is_excluded_group cfg n"
    by (simp add: is_excluded_group_def)
  from assms(3) obtain sv unread where
    counts: "dr_message_counts d = fst (assemble cfg sv unread since)" and
    sums: "dr_summaries d = ds_summaries (snd (assemble cfg sv unread since))"
    by (rule get_digest_Inr)
  have g: "n \<notin> ce_name ` set (mc_groups (dr_message_counts d))"
    using excl by (auto simp: counts assemble_counts count_of_def)
  have f: "n \<notin> fd_name ` set (mc_forums (dr_message_counts d))"
    using excl by (auto simp: counts assemble_counts forum_count_def listed_forums_def)
  have s: "n \<notin> sm_group ` set (dr_summaries d)"
  proof
    assume "n \<in> sm_group ` set (dr_summaries d)"
    then obtain s where s: "s \<in> set (ds_summaries (snd (assemble cfg sv unread since)))"
      and n: "n = sm_group s"
      by (auto simp: sums)
    from digest_summary_cases [OF s] show False
    proof (elim disjE exE conjE)
      fix f tp
      assume "(f, tp) \<in> set (forum_topics cfg sv unread)"
        and "s \<in> set (ds_summaries (topic_contribution cfg sv since f tp))"
      then show False
        using excl n by (auto simp: forum_topics_iff dest: topic_summary_source)
    next
      fix g
      assume "s \<in> set (ds_summaries (group_contribution cfg sv since g))"
      then show False
        using excl n by (auto dest!: group_summary_source eligible_group_not_excluded)
    qed
  qed
  from g f s show ?thesis by simp
qed

theorem excluded_conversation_absent_witness:
  "''Spam'' \<in> set (get_or (cfg_excluded_groups example_config) []) \<and>
   lower ''Spam'' = lower ''SPAM'' \<and>
   get_digest example_config (Some example_services) 24 = Inr example_digest \<and>
   ''SPAM'' \<notin> ce_name ` set (mc_groups (dr_message_counts example_digest)) \<and>
   ''SPAM'' \<notin> fd_name ` set (mc_forums (dr_message_counts example_digest)) \<and>
   ''SPAM'' \<notin> sm_group ` set (dr_summaries example_digest)"
proof -
  have h1: "''Spam'' \<in> set (get_or (cfg_excluded_groups example_config) [])"
    by (simp add: example_config_def get_or_def)
  have h2: "lower ''Spam'' = lower ''SPAM''"
    by code_simp
  have h3: "get_digest example_config (Some example_services) 24 = Inr example_digest"
    by code_simp
  from excluded_conversation_absent [OF h1 h2 h3] h1 h2 h3 show ?thesis
    by simp
qed

section \<open>Configuration lookups\<close>

lemma find_topic_find:
  "find_topic ts tn = find (\<lambda>t. lower (tc_name t) = lower tn) ts"
  by (induction ts) simp_all

lemma topic_config_scan_find:
  "topic_config_scan gs gn tn =
     (case find (\<lambda>g. lower (gc_name g) = lower gn \<and>
                   (find (\<lambda>t. lower (tc_name t) = lower tn) (get_or (gc_topics g) []) \<noteq> None \<or>
                    gc_default_type g \<noteq> None)) gs of
        None \<Rightarrow> None
      | Some g \<Rightarrow>
         (case find (\<lambda>t. lower (tc_name t) = lower tn) (get_or (gc_topics g) []) of
            Some t \<Rightarrow> Some t
          | None \<Rightarrow> Some \<lparr>tc_name = tn, tc_type = gc_default_type g, tc_threshold = Some 1\<rparr>))"
  by (induction gs) (auto simp: find_topic_find split: option.splits)

lemma group_config_scan_find:
  "group_config_scan gs gn = find (\<lambda>g. lower (gc_name g) = lower gn \<and> gc_type g \<noteq> None) gs"
  by (induction gs) auto

text \<open>
  Claim C4, as amended. Topic-policy resolution reads the configuration entries in order
  and is decided by the first entry whose name matches up to case and that has a topic
  matching up to case or defines a default style. From that entry it returns the first
  matching topic entry when there is one, and otherwise a synthesized policy with the
  queried topic name, the default style of the entry and threshold 1. When no entry decides,
  it returns none. A matching entry with neither a matching topic nor a default style does
  not end the search.
\<close>

theorem topic_policy_first_deciding_entry:
  "get_topic_config cfg group_name topic_name =
     (case find (\<lambda>g. lower (gc_name g) = lower group_name \<and>
                   (find (\<lambda>t. lower (tc_name t) = lower topic_name) (get_or (gc_topics g) []) \<noteq> None \<or>
                    gc_default_type g \<noteq> None))
             (get_or (cfg_groups cfg) []) of
        None \<Rightarrow> None
      | Some g \<Rightarrow>
         (case find (\<lambda>t. lower (tc_name t) = lower topic_name) (get_or (gc_topics g) []) of
            Some t \<Rightarrow> Some t
          | None \<Rightarrow>
              Some \<lparr>tc_name = topic_name, tc_type = gc_default_type g, tc_threshold = Some 1\<rparr>))"
  by (simp add: get_topic_config_def topic_config_scan_find)

theorem topic_policy_first_deciding_entry_witness:
  "get_topic_config duplicate_config ''TEAM'' ''eng'' =
     Some \<lparr>tc_name = ''eng'', tc_type = Some ''memes'', tc_threshold = Some 1\<rparr>"
  by (subst topic_policy_first_deciding_entry) code_simp

text \<open>
  The claim as stated fails when two entries match the conversation name: the topic
  \<^verbatim>\<open>Eng\<close> matches inside the second matching entry, yet the result is the policy
  synthesized from the default style of the first, not the configured topic entry.
\<close>

theorem topic_policy_duplicate_counterexample:
  "\<lparr>gc_name = ''team'',
     gc_topics = Some [\<lparr>tc_name = ''Eng'', tc_type = Some ''technical'', tc_threshold = Some 3\<rparr>],
     gc_default_type = None, gc_type = None, gc_threshold = None\<rparr>
     \<in> set (get_or (cfg_groups duplicate_config) []) \<and>
   lower ''team'' = lower ''Team'' \<and>
   lower ''Eng'' = lower ''Eng'' \<and>
   get_topic_config duplicate_config ''Team'' ''Eng'' =
     Some \<lparr>tc_name = ''Eng'', tc_type = Some ''memes'', tc_threshold = Some 1\<rparr> \<and>
   get_topic_config duplicate_config ''Team'' ''Eng'' \<noteq>
     Some \<lparr>tc_name = ''Eng'', tc_type = Some ''technical'', tc_threshold = Some 3\<rparr>"
  by code_simp

text \<open>
  Claim C5, as amended. Group-policy resolution returns the first entry whose name matches
  up to case and that carries a direct style, whether or not the entry also carries a topic
  list; when no matching entry carries a direct style, it returns none.
\<close>

theorem group_policy_first_styled_entry:
  "get_group_config cfg group_name =
     find (\<lambda>g. lower (gc_name g) = lower group_name \<and> gc_type g \<noteq> None)
       (get_or (cfg_groups cfg) []) \<and>
   ((\<forall>g \<in> set (get_or (cfg_groups cfg) []).
       lower (gc_name g) = lower group_name \<longrightarrow> gc_type g = None) \<longrightarrow>
    get_group_config cfg group_name = None)"
  by (auto simp: get_group_config_def group_config_scan_find find_None_iff)

theorem group_policy_first_styled_entry_witness:
  "get_group_config mixed_config ''chat'' = Some mixed_entry \<and>
   get_group_config example_config ''team'' = None"
proof -
  have "\<forall>g \<in> set (get_or (cfg_groups example_config) []).
          lower (gc_name g) = lower ''team'' \<longrightarrow> gc_type g = None"
    by code_simp
  with group_policy_first_styled_entry [of example_config "''team''"]
  have a: "get_group_config example_config ''team'' = None"
    by blast
  have b: "get_group_config mixed_config ''chat'' = Some mixed_entry"
    by (subst conjunct1 [OF group_policy_first_styled_entry]) code_simp
  from a b show ?thesis by simp
qed

text \<open>
  The claim as stated fails on an entry that carries both keys: it is returned although
  it carries a topic list.
\<close>

theorem group_policy_topic_list_counterexample:
  "get_group_config mixed_config ''chat'' = Some mixed_entry \<and>
   lower (gc_name mixed_entry) = lower ''chat'' \<and>
   gc_topics mixed_entry \<noteq> None"
  by code_simp

section \<open>The summariser\<close>

lemma summarise_unknown:
  assumes "summary_type \<notin> {''technical'', ''memes'', ''logistics'', ''invites'', ''skip''}"
    and "messages \<noteq> []"
  shows "summarise sv messages topic_name summary_type =
           ([logistics_request topic_name messages],
            map_sum id Some (messages_create sv (logistics_request topic_name messages)))"
  using assms
  by (simp add: summarise_def returned_def summarise_logistics_def logistics_request_def Let_def)

text \<open>
  Claim C8. With the style \<^verbatim>\<open>skip\<close> the summariser returns the absent value
  (\<open>None\<close>, which is not the empty string) for every message list, and sends no request.
  With any other style and an empty message list it returns a placeholder string fixed by
  the style, and sends no request.
\<close>

theorem summarise_short_circuits:
  "summarise sv messages topic_name ''skip'' = ([], Inr None) \<and>
   (summary_type \<noteq> ''skip'' \<longrightarrow>
      summarise sv [] topic_name summary_type =
        ([], Inr (Some (if summary_type = ''memes'' then ''No memes to report.''
                        else if summary_type = ''invites'' then ''No invites to report.''
                        else ''No messages to summarise.''))))"
  by (simp add: summarise_def returned_def summarise_technical_def summarise_memes_def
        summarise_logistics_def summarise_invites_def)

theorem summarise_short_circuits_witness:
  "summarise example_services [text_message 1 ''Ann'' ''hello''] ''Eng'' ''skip'' = ([], Inr None) \<and>
   ''technical'' \<noteq> ''skip'' \<and>
   summarise example_services [] ''Eng'' ''technical'' = ([], Inr (Some ''No messages to summarise.'')) \<and>
   ''memes'' \<noteq> ''skip'' \<and>
   summarise example_services [] ''Eng'' ''memes'' = ([], Inr (Some ''No memes to report.''))"
proof -
  have t: "''technical'' \<noteq> ''skip''" and m: "''memes'' \<noteq> ''skip''"
    by simp_all
  from summarise_short_circuits [of example_services "[text_message 1 ''Ann'' ''hello'']" "''Eng''" "''technical''"]
    summarise_short_circuits [of example_services "[]" "''Eng''" "''memes''"] t m
  show ?thesis by simp
qed

section \<open>Steps of the loops and sources of the records\<close>

lemma process_topic_state:
  "snd (process_topic cfg sv since f (acc, st) tp) =
     append_state st (topic_contribution cfg sv since f tp)"
  using process_topic_snd [of cfg sv since f "(acc, st)" tp] by simp

lemma append_state_calls_neq:
  "ds_calls (append_state st c) \<noteq> ds_calls st \<longleftrightarrow> ds_calls c \<noteq> []"
  by simp

lemma topic_contribution_calls_eligible:
  "ds_calls (topic_contribution cfg sv since f tp) \<noteq> [] \<Longrightarrow> eligible_topic cfg f tp"
  by (rule ccontr) (simp add: topic_contribution_not_eligible)

lemma topic_contribution_below:
  assumes "resolve_topic cfg (di_name f) (tp_title tp) = Some (ty, th)"
    and "get_or (tp_unread_count tp) 0 < th"
  shows "topic_contribution cfg sv since f tp = empty_state"
  using assms by (simp add: topic_contribution_eq)

lemma get_digest_listing:
  assumes "get_unread_summary sv = Inr unread"
  shows "get_digest cfg (Some sv) since =
           Inr \<lparr>dr_message_counts = fst (assemble cfg sv unread since),
                dr_summaries = ds_summaries (snd (assemble cfg sv unread since)),
                dr_errors = ds_errors (snd (assemble cfg sv unread since))\<rparr>"
  using assms by (simp add: get_digest_def Let_def)

lemma topic_count_listed:
  assumes "(f, tp) \<in> set (forum_topics cfg sv unread)"
  shows "forum_count sv f \<in> set (mc_forums (fst (assemble cfg sv unread since))) \<and>
         topic_count tp \<in> set (fd_topics (forum_count sv f))"
  using assms
  by (auto simp: assemble_counts forum_topics_iff listed_forums_def forum_count_def)

lemma example_listing: "get_unread_summary example_services = Inr example_unread"
  by (simp add: example_services_def)

section \<open>Forum topics: style and threshold\<close>

text \<open>
  Claim C2. For a topic of a listed forum: the pass of the topic loop makes a call (a fetch,
  and after it a generation request) only when the topic resolves to a policy whose style
  is not \<^verbatim>\<open>skip\<close> and whose threshold is at most the unread count of the topic. When
  the unread count is below the resolved threshold, the pass leaves the summaries, the
  errors and the calls as they were. Either way the digest lists the forum with an entry
  giving the title and the unread count of the topic, and every summary record of the digest
  carries the names of an eligible topic and its forum, or of an eligible group.
\<close>

theorem topic_threshold_gate:
  assumes "get_unread_summary sv = Inr unread"
    and "(f, tp) \<in> set (forum_topics cfg sv unread)"
  shows "(ds_calls (snd (process_topic cfg sv since f (acc, st) tp)) \<noteq> ds_calls st \<longrightarrow>
            (\<exists>ty th. resolve_topic cfg (di_name f) (tp_title tp) = Some (ty, th) \<and>
               ty \<noteq> ''skip'' \<and> th \<le> get_or (tp_unread_count tp) 0)) \<and>
         (\<forall>ty th. resolve_topic cfg (di_name f) (tp_title tp) = Some (ty, th) \<and>
               get_or (tp_unread_count tp) 0 < th \<longrightarrow>
               snd (process_topic cfg sv since f (acc, st) tp) = st) \<and>
         (\<exists>d fd. get_digest cfg (Some sv) since = Inr d \<and>
               fd \<in> set (mc_forums (dr_message_counts d)) \<and> fd_name fd = di_name f \<and>
               \<lparr>ce_name = tp_title tp, ce_count = get_or (tp_unread_count tp) 0\<rparr>
                 \<in> set (fd_topics fd) \<and>
               (\<forall>s \<in> set (dr_summaries d).
                  (\<exists>f' tp'. (f', tp') \<in> set (forum_topics cfg sv unread) \<and>
                     eligible_topic cfg f' tp' \<and>
                     sm_group s = di_name f' \<and> sm_topic s = tp_title tp') \<or>
                  (\<exists>g. g \<in> set (us_groups unread) \<and> eligible_group cfg g \<and>
                     sm_group s = di_name g \<and> sm_topic s = ''(all)'')))"
proof (intro conjI)
  show "ds_calls (snd (process_topic cfg sv since f (acc, st) tp)) \<noteq> ds_calls st \<longrightarrow>
          (\<exists>ty th. resolve_topic cfg (di_name f) (tp_title tp) = Some (ty, th) \<and>
             ty \<noteq> ''skip'' \<and> th \<le> get_or (tp_unread_count tp) 0)"
  proof
    assume "ds_calls (snd (process_topic cfg sv since f (acc, st) tp)) \<noteq> ds_calls st"
    then have "ds_calls (topic_contribution cfg sv since f tp) \<noteq> []"
      by (simp add: process_topic_state)
    then have "eligible_topic cfg f tp"
      by (rule topic_contribution_calls_eligible)
    then show "\<exists>ty th. resolve_topic cfg (di_name f) (tp_title tp) = Some (ty, th) \<and>
             ty \<noteq> ''skip'' \<and> th \<le> get_or (tp_unread_count tp) 0"
      by (auto simp: eligible_topic_def split: option.splits)
  qed
next
  show "\<forall>ty th. resolve_topic cfg (di_name f) (tp_title tp) = Some (ty, th) \<and>
               get_or (tp_unread_count tp) 0 < th \<longrightarrow>
               snd (process_topic cfg sv since f (acc, st) tp) = st"
    by (simp add: process_topic_state topic_contribution_below)
next
  let ?d = "\<lparr>dr_message_counts = fst (assemble cfg sv unread since),
             dr_summaries = ds_summaries (snd (assemble cfg sv unread since)),
             dr_errors = ds_errors (snd (assemble cfg sv unread since))\<rparr>"
  have d: "get_digest cfg (Some sv) since = Inr ?d"
    using assms(1) by (rule get_digest_listing)
  have fd: "forum_count sv f \<in> set (mc_forums (dr_message_counts ?d))"
    and tc: "topic_count tp \<in> set (fd_topics (forum_count sv f))"
    using topic_count_listed [OF assms(2)] by simp_all
  have src: "\<forall>s \<in> set (dr_summaries ?d).
                  (\<exists>f' tp'. (f', tp') \<in> set (forum_topics cfg sv unread) \<and>
                     eligible_topic cfg f' tp' \<and>
                     sm_group s = di_name f' \<and> sm_topic s = tp_title tp') \<or>
                  (\<exists>g. g \<in> set (us_groups unread) \<and> eligible_group cfg g \<and>
                     sm_group s = di_name g \<and> sm_topic s = ''(all)'')"
  proof
    fix s assume "s \<in> set (dr_summaries ?d)"
    then have "s \<in> set (ds_summaries (snd (assemble cfg sv unread since)))"
      by simp
    from digest_summary_cases [OF this]
    show "(\<exists>f' tp'. (f', tp') \<in> set (forum_topics cfg sv unread) \<and>
                     eligible_topic cfg f' tp' \<and>
                     sm_group s = di_name f' \<and> sm_topic s = tp_title tp') \<or>
                  (\<exists>g. g \<in> set (us_groups unread) \<and> eligible_group cfg g \<and>
                     sm_group s = di_name g \<and> sm_topic s = ''(all)'')"
      by (meson topic_summary_source group_summary_source)
  qed
  from d fd tc src
  show "\<exists>d fd. get_digest cfg (Some sv) since = Inr d \<and>
               fd \<in> set (mc_forums (dr_message_counts d)) \<and> fd_name fd = di_name f \<and>
               \<lparr>ce_name = tp_title tp, ce_count = get_or (tp_unread_count tp) 0\<rparr>
                 \<in> set (fd_topics fd) \<and>
               (\<forall>s \<in> set (dr_summaries d).
                  (\<exists>f' tp'. (f', tp') \<in> set (forum_topics cfg sv unread) \<and>
                     eligible_topic cfg f' tp' \<and>
                     sm_group s = di_name f' \<and> sm_topic s = tp_title tp') \<or>
                  (\<exists>g. g \<in> set (us_groups unread) \<and> eligible_group cfg g \<and>
                     sm_group s = di_name g \<and> sm_topic s = ''(all)''))"
    apply (intro exI [of _ ?d] exI [of _ "forum_count sv f"] conjI)
        apply assumption+
      apply (simp add: forum_count_def)
     apply (simp add: topic_count_def [symmetric])
    apply assumption
    done
qed

theorem topic_threshold_gate_witness:
  "get_unread_summary example_services = Inr example_unread \<and>
   (team_forum, design_topic) \<in> set (forum_topics example_config example_services example_unread) \<and>
   (team_forum, eng_topic) \<in> set (forum_topics example_config example_services example_unread) \<and>
   resolve_topic example_config (di_name team_forum) (tp_title design_topic) = Some (''memes'', 8) \<and>
   get_or (tp_unread_count design_topic) 0 < 8 \<and>
   snd (process_topic example_config example_services 24 team_forum ([], empty_state) design_topic)
     = empty_state \<and>
   ds_calls (snd (process_topic example_config example_services 24 team_forum ([], empty_state)
                    eng_topic)) \<noteq> ds_calls empty_state \<and>
   (\<exists>th. resolve_topic example_config (di_name team_forum) (tp_title eng_topic)
            = Some (''technical'', th) \<and> th \<le> get_or (tp_unread_count eng_topic) 0) \<and>
   (\<exists>d fd. get_digest example_config (Some example_services) 24 = Inr d \<and>
      fd \<in> set (mc_forums (dr_message_counts d)) \<and> fd_name fd = ''Team'' \<and>
      \<lparr>ce_name = ''design'', ce_count = 2\<rparr> \<in> set (fd_topics fd))"
proof -
  have h1: "get_unread_summary example_services = Inr example_unread"
    by (rule example_listing)
  have h2: "(team_forum, design_topic)
              \<in> set (forum_topics example_config example_services example_unread)"
    by code_simp
  have h3: "(team_forum, eng_topic)
              \<in> set (forum_topics example_config example_services example_unread)"
    by code_simp
  note design = topic_threshold_gate [OF h1 h2, of 24 "[]" empty_state]
  note eng = topic_threshold_gate [OF h1 h3, of 24 "[]" empty_state]
  have r: "resolve_topic example_config (di_name team_forum) (tp_title design_topic)
             = Some (''memes'', 8)"
    by code_simp
  have u: "get_or (tp_unread_count design_topic) 0 < 8"
    by (simp add: design_topic_def get_or_def)
  from design r u have a:
    "snd (process_topic example_config example_services 24 team_forum ([], empty_state)
            design_topic) = empty_state"
    by blast
  have c: "ds_calls (snd (process_topic example_config example_services 24 team_forum
             ([], empty_state) eng_topic)) \<noteq> ds_calls empty_state"
    by code_simp
  have re: "resolve_topic example_config (di_name team_forum) (tp_title eng_topic)
              = Some (''technical'', 3)"
    by code_simp
  from eng c re have b:
    "\<exists>th. resolve_topic example_config (di_name team_forum) (tp_title eng_topic)
            = Some (''technical'', th) \<and> th \<le> get_or (tp_unread_count eng_topic) 0"
    by auto
  from design have d:
    "\<exists>d fd. get_digest example_config (Some example_services) 24 = Inr d \<and>
      fd \<in> set (mc_forums (dr_message_counts d)) \<and> fd_name fd = ''Team'' \<and>
      \<lparr>ce_name = ''design'', ce_count = 2\<rparr> \<in> set (fd_topics fd)"
    by (simp add: team_forum_def design_topic_def get_or_def) blast
  from h1 h2 h3 r u a c b d show ?thesis
    by blast
qed

section \<open>Calls and their sources\<close>

lemma summarise_requests:
  "rq \<in> set (fst (summarise sv messages name ty)) \<Longrightarrow> rq_topic_name rq = name"
  by (auto simp: summarise_def returned_def summarise_technical_def summarise_memes_def
        summarise_logistics_def summarise_invites_def Let_def split: if_splits)

lemma summarise_sends_one_request:
  assumes "messages \<noteq> []" and "ty \<noteq> ''skip''"
  shows "\<exists>rq. summarise sv messages name ty = ([rq], map_sum id Some (messages_create sv rq)) \<and>
           rq_topic_name rq = name"
  using assms
  by (simp add: summarise_def returned_def summarise_technical_def summarise_memes_def
        summarise_logistics_def summarise_invites_def Let_def)

lemma summarise_text_from_backend:
  assumes "messages \<noteq> []" and "snd (summarise sv messages name ty) = Inr (Some text)"
  shows "\<exists>rq. messages_create sv rq = Inr text \<and> rq_topic_name rq = name"
proof -
  from assms(2) have "ty \<noteq> ''skip''"
    by (auto simp: summarise_def)
  from summarise_sends_one_request [OF assms(1) this] obtain rq where
    rq: "summarise sv messages name ty = ([rq], map_sum id Some (messages_create sv rq))"
    and n: "rq_topic_name rq = name"
    by blast
  from rq assms(2) have "messages_create sv rq = Inr text"
    by (cases "messages_create sv rq") simp_all
  with n show ?thesis by blast
qed

lemma summarise_topic_call:
  assumes "c \<in> set (ds_calls (summarise_topic sv since f tp ty empty_state))"
  shows "c = TopicMessages (di_id f) (tp_id tp) 100 since \<or>
         (\<exists>rq. c = MessagesCreate rq \<and> rq_topic_name rq = tp_title tp)"
  using assms
  by (auto simp: summarise_topic_def Let_def dest: summarise_requests
        split: sum.splits option.splits if_splits)

lemma summarise_group_call:
  assumes "c \<in> set (ds_calls (summarise_group sv since g ty empty_state))"
  shows "c = ChatMessages (di_id g) 100 since \<or>
         (\<exists>rq. c = MessagesCreate rq \<and> rq_topic_name rq = di_name g)"
  using assms
  by (auto simp: summarise_group_def Let_def dest: summarise_requests
        split: sum.splits option.splits if_splits)

lemma topic_contribution_call:
  assumes "c \<in> set (ds_calls (topic_contribution cfg sv since f tp))"
  shows "eligible_topic cfg f tp \<and>
         (c = TopicMessages (di_id f) (tp_id tp) 100 since \<or>
          (\<exists>rq. c = MessagesCreate rq \<and> rq_topic_name rq = tp_title tp))"
proof -
  from assms have el: "eligible_topic cfg f tp"
    by (auto intro: ccontr simp: topic_contribution_not_eligible)
  from assms obtain ty where
    "c \<in> set (ds_calls (summarise_topic sv since f tp ty empty_state))"
    by (auto simp: topic_contribution_eq split: option.splits if_splits)
  from summarise_topic_call [OF this] el show ?thesis by simp
qed

lemma group_contribution_call:
  assumes "c \<in> set (ds_calls (group_contribution cfg sv since g))"
  shows "eligible_group cfg g \<and>
         (c = ChatMessages (di_id g) 100 since \<or>
          (\<exists>rq. c = MessagesCreate rq \<and> rq_topic_name rq = di_name g))"
proof -
  from assms have el: "eligible_group cfg g"
    by (auto intro: ccontr simp: group_contribution_not_eligible)
  from assms obtain ty where
    "c \<in> set (ds_calls (summarise_group sv since g ty empty_state))"
    by (auto simp: group_contribution_eq split: option.splits if_splits)
  from summarise_group_call [OF this] el show ?thesis by simp
qed

lemma digest_call_cases:
  assumes "c \<in> set (digest_calls cfg sv unread since)"
  shows "(\<exists>f tp. (f, tp) \<in> set (forum_topics cfg sv unread) \<and>
            c \<in> set (ds_calls (topic_contribution cfg sv since f tp))) \<or>
         (\<exists>g. g \<in> set (us_groups unread) \<and>
            c \<in> set (ds_calls (group_contribution cfg sv since g)))"
  using assms by (auto simp: digest_calls_def assemble_state concat_states_sel)






section \<open>Conversations without a configuration entry\<close>




section \<open>Direct messages\<close>

lemma forum_topics_dms [simp]:
  "forum_topics cfg sv (unread\<lparr>us_dms := dms\<rparr>) = forum_topics cfg sv unread"
  by (simp add: forum_topics_def listed_forums_def)

lemma assemble_dms:
  "snd (assemble cfg sv (unread\<lparr>us_dms := dms\<rparr>) since) = snd (assemble cfg sv unread since)"
  by (simp add: assemble_state)

text \<open>
  Claim C9. When the configuration sets \<^verbatim>\<open>show_dm_counts\<close> to false, the list of
  direct-message counts of the digest is empty, whatever the listing holds. Direct messages
  are never summarised: the summaries, the errors and the calls of a request are the same
  for every list of direct messages; each fetch is for the identifier of a listed forum or
  of a listed group, each generation request is labelled with the title of a topic of a
  listed forum or the name of a listed group, and each summary record names a listed forum
  or group.
\<close>

theorem direct_messages_counts_only:
  assumes "get_unread_summary sv = Inr unread"
  shows "(cfg_show_dm_counts cfg = Some False \<longrightarrow>
            (\<exists>d. get_digest cfg (Some sv) since = Inr d \<and> mc_dms (dr_message_counts d) = [])) \<and>
         snd (assemble cfg sv (unread\<lparr>us_dms := dms\<rparr>) since) =
           snd (assemble cfg sv unread since) \<and>
         (\<forall>c \<in> set (digest_calls cfg sv unread since).
            case c of
              TopicMessages fid tid lim sh \<Rightarrow> fid \<in> di_id ` set (us_supergroups unread)
            | ChatMessages gid lim sh \<Rightarrow> gid \<in> di_id ` set (us_groups unread)
            | MessagesCreate rq \<Rightarrow>
                rq_topic_name rq \<in> tp_title ` snd ` set (forum_topics cfg sv unread) \<union>
                                    di_name ` set (us_groups unread)) \<and>
         (\<exists>d. get_digest cfg (Some sv) since = Inr d \<and>
            sm_group ` set (dr_summaries d) \<subseteq>
              di_name ` set (us_supergroups unread) \<union> di_name ` set (us_groups unread))"
proof (intro conjI)
  let ?d = "\<lparr>dr_message_counts = fst (assemble cfg sv unread since),
             dr_summaries = ds_summaries (snd (assemble cfg sv unread since)),
             dr_errors = ds_errors (snd (assemble cfg sv unread since))\<rparr>"
  have d: "get_digest cfg (Some sv) since = Inr ?d"
    using assms by (rule get_digest_listing)
  show "cfg_show_dm_counts cfg = Some False \<longrightarrow>
          (\<exists>d. get_digest cfg (Some sv) since = Inr d \<and> mc_dms (dr_message_counts d) = [])"
  proof
    assume "cfg_show_dm_counts cfg = Some False"
    then have "mc_dms (dr_message_counts ?d) = []"
      by (simp add: assemble_counts get_or_def)
    with d show "\<exists>d. get_digest cfg (Some sv) since = Inr d \<and> mc_dms (dr_message_counts d) = []"
      by blast
  qed
  show "snd (assemble cfg sv (unread\<lparr>us_dms := dms\<rparr>) since) = snd (assemble cfg sv unread since)"
    by (rule assemble_dms)
  show "\<forall>c \<in> set (digest_calls cfg sv unread since).
            case c of
              TopicMessages fid tid lim sh \<Rightarrow> fid \<in> di_id ` set (us_supergroups unread)
            | ChatMessages gid lim sh \<Rightarrow> gid \<in> di_id ` set (us_groups unread)
            | MessagesCreate rq \<Rightarrow>
                rq_topic_name rq \<in> tp_title ` snd ` set (forum_topics cfg sv unread) \<union>
                                    di_name ` set (us_groups unread)"
  proof
    fix c assume "c \<in> set (digest_calls cfg sv unread since)"
    from digest_call_cases [OF this]
    show "case c of
              TopicMessages fid tid lim sh \<Rightarrow> fid \<in> di_id ` set (us_supergroups unread)
            | ChatMessages gid lim sh \<Rightarrow> gid \<in> di_id ` set (us_groups unread)
            | MessagesCreate rq \<Rightarrow>
                rq_topic_name rq \<in> tp_title ` snd ` set (forum_topics cfg sv unread) \<union>
                                    di_name ` set (us_groups unread)"
    proof (elim disjE exE conjE)
      fix f tp
      assume m: "(f, tp) \<in> set (forum_topics cfg sv unread)"
        and c: "c \<in> set (ds_calls (topic_contribution cfg sv since f tp))"
      from m have f: "di_id f \<in> di_id ` set (us_supergroups unread)"
        by (simp add: forum_topics_iff)
      have "snd (f, tp) \<in> snd ` set (forum_topics cfg sv unread)"
        using m by (rule imageI)
      then have t: "tp_title tp \<in> tp_title ` snd ` set (forum_topics cfg sv unread)"
        by simp
      from topic_contribution_call [OF c]
      have "c = TopicMessages (di_id f) (tp_id tp) 100 since \<or>
            (\<exists>rq. c = MessagesCreate rq \<and> rq_topic_name rq = tp_title tp)"
        by simp
      then show ?thesis
      proof (elim disjE exE conjE)
        assume "c = TopicMessages (di_id f) (tp_id tp) 100 since"
        with f show ?thesis by simp
      next
        fix rq assume "c = MessagesCreate rq" and "rq_topic_name rq = tp_title tp"
        with t show ?thesis by simp
      qed
    next
      fix g
      assume m: "g \<in> set (us_groups unread)"
        and c: "c \<in> set (ds_calls (group_contribution cfg sv since g))"
      then show ?thesis
        using group_contribution_call [OF c] by auto
    qed
  qed
  have "sm_group ` set (dr_summaries ?d) \<subseteq>
              di_name ` set (us_supergroups unread) \<union> di_name ` set (us_groups unread)"
  proof
    fix n assume "n \<in> sm_group ` set (dr_summaries ?d)"
    then obtain s where s: "s \<in> set (ds_summaries (snd (assemble cfg sv unread since)))"
      and n: "n = sm_group s"
      by auto
    from digest_summary_cases [OF s]
    show "n \<in> di_name ` set (us_supergroups unread) \<union> di_name ` set (us_groups unread)"
      using n by (auto simp: forum_topics_iff dest!: topic_summary_source group_summary_source)
  qed
  with d show "\<exists>d. get_digest cfg (Some sv) since = Inr d \<and>
            sm_group ` set (dr_summaries d) \<subseteq>
              di_name ` set (us_supergroups unread) \<union> di_name ` set (us_groups unread)"
    by blast
qed

theorem direct_messages_counts_only_witness:
  "get_unread_summary example_services = Inr example_unread \<and>
   cfg_show_dm_counts example_config = Some False \<and>
   length (us_dms example_unread) = 2 \<and>
   (\<exists>d. get_digest example_config (Some example_services) 24 = Inr d \<and>
      mc_dms (dr_message_counts d) = []) \<and>
   snd (assemble example_config example_services (example_unread\<lparr>us_dms := []\<rparr>) 24) =
     snd (assemble example_config example_services example_unread 24)"
proof -
  have h1: "get_unread_summary example_services = Inr example_unread"
    by (rule example_listing)
  have h2: "cfg_show_dm_counts example_config = Some False"
    by (simp add: example_config_def)
  have h3: "length (us_dms example_unread) = 2"
    by (simp add: example_unread_def)
  note T = direct_messages_counts_only [OF h1, of example_config 24 "[]"]
  from T h2 have a: "\<exists>d. get_digest example_config (Some example_services) 24 = Inr d \<and>
      mc_dms (dr_message_counts d) = []"
    by (rule conjunct1 [THEN mp])
  from T have b:
    "snd (assemble example_config example_services (example_unread\<lparr>us_dms := []\<rparr>) 24) =
     snd (assemble example_config example_services example_unread 24)"
    by (rule conjunct2 [THEN conjunct1])
  from h1 h2 h3 a b show ?thesis by (intro conjI)
qed

section \<open>Eligible topics and groups, and empty windows\<close>

lemma summarise_topic_empty_window:
  assumes "get_topic_messages sv (di_id f) (tp_id tp) 100 since = Inr []"
  shows "summarise_topic sv since f tp ty st =
           st\<lparr>ds_calls := ds_calls st @ [TopicMessages (di_id f) (tp_id tp) 100 since]\<rparr>"
  using assms by (simp add: summarise_topic_def Let_def)

lemma summarise_group_empty_window:
  assumes "get_chat_messages sv (di_id g) 100 since = Inr []"
  shows "summarise_group sv since g ty st =
           st\<lparr>ds_calls := ds_calls st @ [ChatMessages (di_id g) 100 since]\<rparr>"
  using assms by (simp add: summarise_group_def Let_def)

lemma process_topic_eligible:
  assumes "eligible_topic cfg f tp"
  shows "\<exists>ty th. resolve_topic cfg (di_name f) (tp_title tp) = Some (ty, th) \<and>
           ty \<noteq> ''skip'' \<and> th \<le> get_or (tp_unread_count tp) 0 \<and>
           snd (process_topic cfg sv since f (acc, st) tp) = summarise_topic sv since f tp ty st"
proof -
  from assms obtain ty th where
    r: "resolve_topic cfg (di_name f) (tp_title tp) = Some (ty, th)"
    and t: "ty \<noteq> ''skip''" and u: "th \<le> get_or (tp_unread_count tp) 0"
    by (auto simp: eligible_topic_def split: option.splits)
  have "snd (process_topic cfg sv since f (acc, st) tp) =
          append_state st (summarise_topic sv since f tp ty empty_state)"
    using r t u by (simp add: process_topic_state topic_contribution_eq)
  also have "\<dots> = summarise_topic sv since f tp ty st"
    by (rule summarise_topic_append [symmetric])
  finally show ?thesis
    using r t u by blast
qed

lemma process_group_eligible:
  assumes "eligible_group cfg g"
  shows "\<exists>ty th. resolve_group cfg (di_name g) = Some (ty, th) \<and>
           ty \<noteq> ''skip'' \<and> th \<le> di_unread_count g \<and>
           process_group cfg sv since st g = summarise_group sv since g ty st"
proof -
  from assms obtain ty th where
    r: "resolve_group cfg (di_name g) = Some (ty, th)"
    and t: "ty \<noteq> ''skip''" and u: "th \<le> di_unread_count g"
    and e: "\<not> is_excluded_group cfg (di_name g)"
    by (auto simp: eligible_group_def split: option.splits)
  have "process_group cfg sv since st g =
          append_state st (summarise_group sv since g ty empty_state)"
    using r t u e
    by (simp add: process_group_append [of cfg sv since st g] group_contribution_eq)
  also have "\<dots> = summarise_group sv since g ty st"
    by (rule summarise_group_append [symmetric])
  finally show ?thesis
    using r t u by blast
qed

lemma topic_summary_window:
  assumes "s \<in> set (ds_summaries (topic_contribution cfg sv since f tp))"
  shows "\<exists>messages. get_topic_messages sv (di_id f) (tp_id tp) 100 since = Inr messages \<and>
           messages \<noteq> [] \<and> sm_message_count s = length messages \<and>
           (\<exists>rq. messages_create sv rq = Inr (sm_summary s))"
proof -
  from assms obtain ty where
    "s \<in> set (ds_summaries (summarise_topic sv since f tp ty empty_state))"
    by (auto simp: topic_contribution_eq split: option.splits if_splits)
  from summarise_topic_summary [OF this] obtain messages reply where
    m: "get_topic_messages sv (di_id f) (tp_id tp) 100 since = Inr messages"
    and ne: "messages \<noteq> []"
    and t: "snd (summarise sv messages (tp_title tp) ty) = Inr (Some reply)"
    and s: "sm_message_count s = length messages" "sm_summary s = reply"
    by auto
  from summarise_text_from_backend [OF ne t] s(2)
  have "\<exists>rq. messages_create sv rq = Inr (sm_summary s)"
    by auto
  with m ne s(1) show ?thesis by blast
qed

lemma group_summary_window:
  assumes "s \<in> set (ds_summaries (group_contribution cfg sv since g))"
  shows "\<exists>messages. get_chat_messages sv (di_id g) 100 since = Inr messages \<and>
           messages \<noteq> [] \<and> sm_message_count s = length messages \<and>
           (\<exists>rq. messages_create sv rq = Inr (sm_summary s))"
proof -
  from assms obtain ty where
    "s \<in> set (ds_summaries (summarise_group sv since g ty empty_state))"
    by (auto simp: group_contribution_eq split: option.splits if_splits)
  from summarise_group_summary [OF this] obtain messages reply where
    m: "get_chat_messages sv (di_id g) 100 since = Inr messages"
    and ne: "messages \<noteq> []"
    and t: "snd (summarise sv messages (di_name g) ty) = Inr (Some reply)"
    and s: "sm_message_count s = length messages" "sm_summary s = reply"
    by auto
  from summarise_text_from_backend [OF ne t] s(2)
  have "\<exists>rq. messages_create sv rq = Inr (sm_summary s)"
    by auto
  with m ne s(1) show ?thesis by blast
qed

lemma quiet_listing: "get_unread_summary quiet_services = Inr example_unread"
  by (simp add: quiet_services_def example_services_def)

text \<open>
  Claim C10. For an eligible topic, and for an eligible group, whose fetch returns an empty
  window, the pass of the loop adds the fetch to the calls and nothing else: no summary
  record, no error string, no generation request. So each summary record of a digest has,
  as its message count, the length of a window that was fetched for a listed topic or group
  of the names the record carries, the count is at least 1, and its text is an answer of
  the generation backend, not a placeholder of the summariser.
\<close>

theorem empty_window_yields_nothing:
  assumes "get_unread_summary sv = Inr unread"
  shows "(eligible_topic cfg f tp \<and>
          get_topic_messages sv (di_id f) (tp_id tp) 100 since = Inr [] \<longrightarrow>
            snd (process_topic cfg sv since f (acc, st) tp) =
              st\<lparr>ds_calls := ds_calls st @ [TopicMessages (di_id f) (tp_id tp) 100 since]\<rparr>) \<and>
         (eligible_group cfg g \<and> get_chat_messages sv (di_id g) 100 since = Inr [] \<longrightarrow>
            process_group cfg sv since st g =
              st\<lparr>ds_calls := ds_calls st @ [ChatMessages (di_id g) 100 since]\<rparr>) \<and>
         (\<exists>d. get_digest cfg (Some sv) since = Inr d \<and>
            (\<forall>s \<in> set (dr_summaries d).
               1 \<le> sm_message_count s \<and>
               (\<exists>rq. messages_create sv rq = Inr (sm_summary s)) \<and>
               ((\<exists>f' tp' messages. (f', tp') \<in> set (forum_topics cfg sv unread) \<and>
                   get_topic_messages sv (di_id f') (tp_id tp') 100 since = Inr messages \<and>
                   sm_message_count s = length messages \<and>
                   sm_group s = di_name f' \<and> sm_topic s = tp_title tp') \<or>
                (\<exists>g' messages. g' \<in> set (us_groups unread) \<and>
                   get_chat_messages sv (di_id g') 100 since = Inr messages \<and>
                   sm_message_count s = length messages \<and>
                   sm_group s = di_name g' \<and> sm_topic s = ''(all)''))))"
proof (intro conjI)
  show "eligible_topic cfg f tp \<and>
          get_topic_messages sv (di_id f) (tp_id tp) 100 since = Inr [] \<longrightarrow>
            snd (process_topic cfg sv since f (acc, st) tp) =
              st\<lparr>ds_calls := ds_calls st @ [TopicMessages (di_id f) (tp_id tp) 100 since]\<rparr>"
    using process_topic_eligible [of cfg f tp sv since acc st]
    by (auto simp: summarise_topic_empty_window)
  show "eligible_group cfg g \<and> get_chat_messages sv (di_id g) 100 since = Inr [] \<longrightarrow>
            process_group cfg sv since st g =
              st\<lparr>ds_calls := ds_calls st @ [ChatMessages (di_id g) 100 since]\<rparr>"
    using process_group_eligible [of cfg g sv since st]
    by (auto simp: summarise_group_empty_window)
  let ?d = "\<lparr>dr_message_counts = fst (assemble cfg sv unread since),
             dr_summaries = ds_summaries (snd (assemble cfg sv unread since)),
             dr_errors = ds_errors (snd (assemble cfg sv unread since))\<rparr>"
  have d: "get_digest cfg (Some sv) since = Inr ?d"
    using assms by (rule get_digest_listing)
  have "\<forall>s \<in> set (dr_summaries ?d).
               1 \<le> sm_message_count s \<and>
               (\<exists>rq. messages_create sv rq = Inr (sm_summary s)) \<and>
               ((\<exists>f' tp' messages. (f', tp') \<in> set (forum_topics cfg sv unread) \<and>
                   get_topic_messages sv (di_id f') (tp_id tp') 100 since = Inr messages \<and>
                   sm_message_count s = length messages \<and>
                   sm_group s = di_name f' \<and> sm_topic s = tp_title tp') \<or>
                (\<exists>g' messages. g' \<in> set (us_groups unread) \<and>
                   get_chat_messages sv (di_id g') 100 since = Inr messages \<and>
                   sm_message_count s = length messages \<and>
                   sm_group s = di_name g' \<and> sm_topic s = ''(all)''))"
  proof
    fix s assume "s \<in> set (dr_summaries ?d)"
    then have "s \<in> set (ds_summaries (snd (assemble cfg sv unread since)))"
      by simp
    from digest_summary_cases [OF this]
    show "1 \<le> sm_message_count s \<and>
               (\<exists>rq. messages_create sv rq = Inr (sm_summary s)) \<and>
               ((\<exists>f' tp' messages. (f', tp') \<in> set (forum_topics cfg sv unread) \<and>
                   get_topic_messages sv (di_id f') (tp_id tp') 100 since = Inr messages \<and>
                   sm_message_count s = length messages \<and>
                   sm_group s = di_name f' \<and> sm_topic s = tp_title tp') \<or>
                (\<exists>g' messages. g' \<in> set (us_groups unread) \<and>
                   get_chat_messages sv (di_id g') 100 since = Inr messages \<and>
                   sm_message_count s = length messages \<and>
                   sm_group s = di_name g' \<and> sm_topic s = ''(all)''))"
    proof (elim disjE exE conjE)
      fix f' tp'
      assume m: "(f', tp') \<in> set (forum_topics cfg sv unread)"
        and c: "s \<in> set (ds_summaries (topic_contribution cfg sv since f' tp'))"
      from topic_summary_window [OF c] obtain messages where
        w: "get_topic_messages sv (di_id f') (tp_id tp') 100 since = Inr messages"
        and ne: "messages \<noteq> []" and n: "sm_message_count s = length messages"
        and b: "\<exists>rq. messages_create sv rq = Inr (sm_summary s)"
        by blast
      from ne n have "1 \<le> sm_message_count s"
        by (cases messages) simp_all
      moreover from topic_summary_source [OF c]
      have "sm_group s = di_name f'" "sm_topic s = tp_title tp'"
        by simp_all
      ultimately show ?thesis
        using m w n b by blast
    next
      fix g'
      assume m: "g' \<in> set (us_groups unread)"
        and c: "s \<in> set (ds_summaries (group_contribution cfg sv since g'))"
      from group_summary_window [OF c] obtain messages where
        w: "get_chat_messages sv (di_id g') 100 since = Inr messages"
        and ne: "messages \<noteq> []" and n: "sm_message_count s = length messages"
        and b: "\<exists>rq. messages_create sv rq = Inr (sm_summary s)"
        by blast
      from ne n have "1 \<le> sm_message_count s"
        by (cases messages) simp_all
      moreover from group_summary_source [OF c]
      have "sm_group s = di_name g'" "sm_topic s = ''(all)''"
        by simp_all
      ultimately show ?thesis
        using m w n b by blast
    qed
  qed
  with d show "\<exists>d. get_digest cfg (Some sv) since = Inr d \<and>
            (\<forall>s \<in> set (dr_summaries d).
               1 \<le> sm_message_count s \<and>
               (\<exists>rq. messages_create sv rq = Inr (sm_summary s)) \<and>
               ((\<exists>f' tp' messages. (f', tp') \<in> set (forum_topics cfg sv unread) \<and>
                   get_topic_messages sv (di_id f') (tp_id tp') 100 since = Inr messages \<and>
                   sm_message_count s = length messages \<and>
                   sm_group s = di_name f' \<and> sm_topic s = tp_title tp') \<or>
                (\<exists>g' messages. g' \<in> set (us_groups unread) \<and>
                   get_chat_messages sv (di_id g') 100 since = Inr messages \<and>
                   sm_message_count s = length messages \<and>
                   sm_group s = di_name g' \<and> sm_topic s = ''(all)'')))"
    by (intro exI [of _ ?d] conjI)
qed

theorem empty_window_yields_nothing_witness:
  "get_unread_summary quiet_services = Inr example_unread \<and>
   eligible_topic example_config team_forum eng_topic \<and>
   get_topic_messages quiet_services (di_id team_forum) (tp_id eng_topic) 100 24 = Inr [] \<and>
   snd (process_topic example_config quiet_services 24 team_forum ([], empty_state) eng_topic) =
     empty_state\<lparr>ds_calls := ds_calls empty_state @
        [TopicMessages (di_id team_forum) (tp_id eng_topic) 100 24]\<rparr> \<and>
   eligible_group example_config chat_group \<and>
   get_chat_messages quiet_services (di_id chat_group) 100 24 = Inr [] \<and>
   process_group example_config quiet_services 24 empty_state chat_group =
     empty_state\<lparr>ds_calls := ds_calls empty_state @ [ChatMessages (di_id chat_group) 100 24]\<rparr> \<and>
   (\<exists>d. get_digest example_config (Some quiet_services) 24 = Inr d \<and> dr_summaries d = []) \<and>
   (\<exists>d s. get_digest example_config (Some example_services) 24 = Inr d \<and>
      s \<in> set (dr_summaries d) \<and> sm_topic s = ''Eng'' \<and> sm_message_count s = 2 \<and>
      1 \<le> sm_message_count s \<and>
      (\<exists>rq. messages_create example_services rq = Inr (sm_summary s)))"
proof -
  have h1: "get_unread_summary quiet_services = Inr example_unread"
    by (rule quiet_listing)
  have et: "eligible_topic example_config team_forum eng_topic"
    by code_simp
  have wt: "get_topic_messages quiet_services (di_id team_forum) (tp_id eng_topic) 100 24 = Inr []"
    by (simp add: quiet_services_def)
  have eg: "eligible_group example_config chat_group"
    by code_simp
  have wg: "get_chat_messages quiet_services (di_id chat_group) 100 24 = Inr []"
    by (simp add: quiet_services_def)
  note quiet = empty_window_yields_nothing [OF h1, where cfg = example_config and since = 24
      and f = team_forum and tp = eng_topic and acc = "[]" and st = empty_state
      and g = chat_group]
  from quiet et wt have a:
    "snd (process_topic example_config quiet_services 24 team_forum ([], empty_state) eng_topic) =
     empty_state\<lparr>ds_calls := ds_calls empty_state @
        [TopicMessages (di_id team_forum) (tp_id eng_topic) 100 24]\<rparr>"
    by blast
  from quiet eg wg have b:
    "process_group example_config quiet_services 24 empty_state chat_group =
     empty_state\<lparr>ds_calls := ds_calls empty_state @ [ChatMessages (di_id chat_group) 100 24]\<rparr>"
    by blast
  have "get_digest example_config (Some quiet_services) 24 =
          Inr (example_digest\<lparr>dr_summaries := []\<rparr>)"
    by code_simp
  then have c: "\<exists>d. get_digest example_config (Some quiet_services) 24 = Inr d \<and>
      dr_summaries d = []"
    by simp
  from empty_window_yields_nothing [OF example_listing, where cfg = example_config and since = 24]
  obtain d where d: "get_digest example_config (Some example_services) 24 = Inr d"
    and all: "\<forall>s \<in> set (dr_summaries d).
               1 \<le> sm_message_count s \<and>
               (\<exists>rq. messages_create example_services rq = Inr (sm_summary s))"
    by blast
  from d have de: "d = example_digest"
    by (simp add: example_digest_eq)
  let ?s = "\<lparr>sm_group = ''Team'', sm_topic = ''Eng'', sm_type = ''technical'',
             sm_message_count = 2, sm_summary = ''About Eng''\<rparr>"
  have m: "?s \<in> set (dr_summaries d)"
    by (simp add: de example_digest_def)
  from bspec [OF all m] d m
  have e: "\<exists>d s. get_digest example_config (Some example_services) 24 = Inr d \<and>
      s \<in> set (dr_summaries d) \<and> sm_topic s = ''Eng'' \<and> sm_message_count s = 2 \<and>
      1 \<le> sm_message_count s \<and>
      (\<exists>rq. messages_create example_services rq = Inr (sm_summary s))"
    by (intro exI [of _ d] exI [of _ ?s]) simp
  from h1 et wt a eg wg b c e show ?thesis
    by (intro conjI)
qed

section \<open>Styles outside the five tags\<close>

lemma summarise_topic_success:
  assumes "get_topic_messages sv (di_id f) (tp_id tp) 100 since = Inr messages"
    and "messages \<noteq> []"
    and "summarise sv messages (tp_title tp) ty = ([rq], Inr (Some reply))"
    and "reply \<noteq> []"
  shows "summarise_topic sv since f tp ty st =
           st\<lparr>ds_calls := ds_calls st @
                  [TopicMessages (di_id f) (tp_id tp) 100 since, MessagesCreate rq],
               ds_summaries := ds_summaries st @
                  [\<lparr>sm_group = di_name f, sm_topic = tp_title tp, sm_type = ty,
                    sm_message_count = length messages, sm_summary = reply\<rparr>]\<rparr>"
  using assms by (simp add: summarise_topic_def Let_def)

lemma summarise_group_success:
  assumes "get_chat_messages sv (di_id g) 100 since = Inr messages"
    and "messages \<noteq> []"
    and "summarise sv messages (di_name g) ty = ([rq], Inr (Some reply))"
    and "reply \<noteq> []"
  shows "summarise_group sv since g ty st =
           st\<lparr>ds_calls := ds_calls st @
                  [ChatMessages (di_id g) 100 since, MessagesCreate rq],
               ds_summaries := ds_summaries st @
                  [\<lparr>sm_group = di_name g, sm_topic = ''(all)'', sm_type = ty,
                    sm_message_count = length messages, sm_summary = reply\<rparr>]\<rparr>"
  using assms by (simp add: summarise_group_def Let_def)

lemma process_topic_resolved:
  assumes "resolve_topic cfg (di_name f) (tp_title tp) = Some (ty, th)"
    and "ty \<noteq> ''skip''" and "th \<le> get_or (tp_unread_count tp) 0"
  shows "snd (process_topic cfg sv since f (acc, st) tp) = summarise_topic sv since f tp ty st"
proof -
  have "eligible_topic cfg f tp"
    using assms by (simp add: eligible_topic_def)
  from process_topic_eligible [OF this, of sv since acc st] assms(1)
  show ?thesis by auto
qed

lemma process_group_resolved:
  assumes "\<not> is_excluded_group cfg (di_name g)"
    and "resolve_group cfg (di_name g) = Some (ty, th)"
    and "ty \<noteq> ''skip''" and "th \<le> di_unread_count g"
  shows "process_group cfg sv since st g = summarise_group sv since g ty st"
proof -
  have "eligible_group cfg g"
    using assms by (simp add: eligible_group_def)
  from process_group_eligible [OF this, of sv since st] assms(2)
  show ?thesis by auto
qed

lemma digest_summaries_from_topic:
  assumes "get_unread_summary sv = Inr unread"
    and "(f, tp) \<in> set (forum_topics cfg sv unread)"
    and "s \<in> set (ds_summaries (snd (process_topic cfg sv since f ([], empty_state) tp)))"
  shows "\<exists>d. get_digest cfg (Some sv) since = Inr d \<and> s \<in> set (dr_summaries d)"
proof -
  from assms(3) have "s \<in> set (ds_summaries (topic_contribution cfg sv since f tp))"
    by (simp add: topic_contribution_def)
  with assms(2) have "s \<in> set (ds_summaries (snd (assemble cfg sv unread since)))"
    by (force simp: assemble_state concat_states_sel)
  then show ?thesis
    by (simp add: get_digest_listing [OF assms(1)])
qed

lemma digest_summaries_from_group:
  assumes "get_unread_summary sv = Inr unread"
    and "g \<in> set (us_groups unread)"
    and "s \<in> set (ds_summaries (process_group cfg sv since empty_state g))"
  shows "\<exists>d. get_digest cfg (Some sv) since = Inr d \<and> s \<in> set (dr_summaries d)"
proof -
  from assms(3) have "s \<in> set (ds_summaries (group_contribution cfg sv since g))"
    by (simp add: group_contribution_def)
  with assms(2) have "s \<in> set (ds_summaries (snd (assemble cfg sv unread since)))"
    by (force simp: assemble_state concat_states_sel)
  then show ?thesis
    by (simp add: get_digest_listing [OF assms(1)])
qed

text \<open>
  Claim C7. For a style tag that is none of \<^verbatim>\<open>technical\<close>, \<^verbatim>\<open>memes\<close>,
  \<^verbatim>\<open>logistics\<close>, \<^verbatim>\<open>invites\<close> and \<^verbatim>\<open>skip\<close>, and a non-empty message list,
  the summariser sends exactly the request of the logistics template and returns the answer
  of the backend. When a listed topic (or a listed, not excluded group) resolves to such a
  tag, meets its threshold, has a non-empty window and the backend answers with a non-empty
  text, the pass of the loop appends one summary record whose \<^verbatim>\<open>type\<close> field is the
  configured tag itself, and the digest of the request contains that record.
\<close>

theorem unknown_style_logistics_prompt:
  assumes "ty \<notin> {''technical'', ''memes'', ''logistics'', ''invites'', ''skip''}"
    and "messages \<noteq> []"
  shows "summarise sv messages name ty =
           ([logistics_request name messages],
            map_sum id Some (messages_create sv (logistics_request name messages))) \<and>
         rq_template (logistics_request name messages) = Logistics \<and>
         (get_unread_summary sv = Inr unread \<and>
          (f, tp) \<in> set (forum_topics cfg sv unread) \<and>
          resolve_topic cfg (di_name f) (tp_title tp) = Some (ty, th) \<and>
          th \<le> get_or (tp_unread_count tp) 0 \<and>
          get_topic_messages sv (di_id f) (tp_id tp) 100 since = Inr messages \<and>
          messages_create sv (logistics_request (tp_title tp) messages) = Inr reply \<and>
          reply \<noteq> [] \<longrightarrow>
            snd (process_topic cfg sv since f (acc, st) tp) =
              st\<lparr>ds_calls := ds_calls st @
                     [TopicMessages (di_id f) (tp_id tp) 100 since,
                      MessagesCreate (logistics_request (tp_title tp) messages)],
                  ds_summaries := ds_summaries st @
                     [\<lparr>sm_group = di_name f, sm_topic = tp_title tp, sm_type = ty,
                       sm_message_count = length messages, sm_summary = reply\<rparr>]\<rparr> \<and>
            (\<exists>d. get_digest cfg (Some sv) since = Inr d \<and>
               \<lparr>sm_group = di_name f, sm_topic = tp_title tp, sm_type = ty,
                 sm_message_count = length messages, sm_summary = reply\<rparr>
                 \<in> set (dr_summaries d))) \<and>
         (get_unread_summary sv = Inr unread \<and>
          g \<in> set (us_groups unread) \<and> \<not> is_excluded_group cfg (di_name g) \<and>
          resolve_group cfg (di_name g) = Some (ty, th) \<and>
          th \<le> di_unread_count g \<and>
          get_chat_messages sv (di_id g) 100 since = Inr messages \<and>
          messages_create sv (logistics_request (di_name g) messages) = Inr reply \<and>
          reply \<noteq> [] \<longrightarrow>
            process_group cfg sv since st g =
              st\<lparr>ds_calls := ds_calls st @
                     [ChatMessages (di_id g) 100 since,
                      MessagesCreate (logistics_request (di_name g) messages)],
                  ds_summaries := ds_summaries st @
                     [\<lparr>sm_group = di_name g, sm_topic = ''(all)'', sm_type = ty,
                       sm_message_count = length messages, sm_summary = reply\<rparr>]\<rparr> \<and>
            (\<exists>d. get_digest cfg (Some sv) since = Inr d \<and>
               \<lparr>sm_group = di_name g, sm_topic = ''(all)'', sm_type = ty,
                 sm_message_count = length messages, sm_summary = reply\<rparr>
                 \<in> set (dr_summaries d)))"
proof (intro conjI impI; (elim conjE)?)
  have skip: "ty \<noteq> ''skip''"
    using assms(1) by simp
  show fallback: "summarise sv messages name ty =
           ([logistics_request name messages],
            map_sum id Some (messages_create sv (logistics_request name messages)))" for name
    using assms by (rule summarise_unknown)
  show "rq_template (logistics_request name messages) = Logistics"
    by (simp add: logistics_request_def)
  {
    assume listing: "get_unread_summary sv = Inr unread"
      and m: "(f, tp) \<in> set (forum_topics cfg sv unread)"
      and r: "resolve_topic cfg (di_name f) (tp_title tp) = Some (ty, th)"
      and u: "th \<le> get_or (tp_unread_count tp) 0"
      and w: "get_topic_messages sv (di_id f) (tp_id tp) 100 since = Inr messages"
      and b: "messages_create sv (logistics_request (tp_title tp) messages) = Inr reply"
      and ne: "reply \<noteq> []"
    have s: "summarise sv messages (tp_title tp) ty =
               ([logistics_request (tp_title tp) messages], Inr (Some reply))"
      by (simp add: fallback b)
    have step: "snd (process_topic cfg sv since f (acc, st) tp) =
              st\<lparr>ds_calls := ds_calls st @
                     [TopicMessages (di_id f) (tp_id tp) 100 since,
                      MessagesCreate (logistics_request (tp_title tp) messages)],
                  ds_summaries := ds_summaries st @
                     [\<lparr>sm_group = di_name f, sm_topic = tp_title tp, sm_type = ty,
                       sm_message_count = length messages, sm_summary = reply\<rparr>]\<rparr>"
      for acc st
      by (simp only: process_topic_resolved [OF r skip u]
            summarise_topic_success [OF w assms(2) s ne])
    show "snd (process_topic cfg sv since f (acc, st) tp) =
              st\<lparr>ds_calls := ds_calls st @
                     [TopicMessages (di_id f) (tp_id tp) 100 since,
                      MessagesCreate (logistics_request (tp_title tp) messages)],
                  ds_summaries := ds_summaries st @
                     [\<lparr>sm_group = di_name f, sm_topic = tp_title tp, sm_type = ty,
                       sm_message_count = length messages, sm_summary = reply\<rparr>]\<rparr>"
      by (rule step)
    show "\<exists>d. get_digest cfg (Some sv) since = Inr d \<and>
               \<lparr>sm_group = di_name f, sm_topic = tp_title tp, sm_type = ty,
                 sm_message_count = length messages, sm_summary = reply\<rparr>
                 \<in> set (dr_summaries d)"
      by (rule digest_summaries_from_topic [OF listing m]) (simp add: step)
  }
  {
    assume listing: "get_unread_summary sv = Inr unread"
      and m: "g \<in> set (us_groups unread)"
      and e: "\<not> is_excluded_group cfg (di_name g)"
      and r: "resolve_group cfg (di_name g) = Some (ty, th)"
      and u: "th \<le> di_unread_count g"
      and w: "get_chat_messages sv (di_id g) 100 since = Inr messages"
      and b: "messages_create sv (logistics_request (di_name g) messages) = Inr reply"
      and ne: "reply \<noteq> []"
    have s: "summarise sv messages (di_name g) ty =
               ([logistics_request (di_name g) messages], Inr (Some reply))"
      by (simp add: fallback b)
    have step: "process_group cfg sv since st g =
              st\<lparr>ds_calls := ds_calls st @
                     [ChatMessages (di_id g) 100 since,
                      MessagesCreate (logistics_request (di_name g) messages)],
                  ds_summaries := ds_summaries st @
                     [\<lparr>sm_group = di_name g, sm_topic = ''(all)'', sm_type = ty,
                       sm_message_count = length messages, sm_summary = reply\<rparr>]\<rparr>"
      for st
      by (simp only: process_group_resolved [OF e r skip u]
            summarise_group_success [OF w assms(2) s ne])
    show "process_group cfg sv since st g =
              st\<lparr>ds_calls := ds_calls st @
                     [ChatMessages (di_id g) 100 since,
                      MessagesCreate (logistics_request (di_name g) messages)],
                  ds_summaries := ds_summaries st @
                     [\<lparr>sm_group = di_name g, sm_topic = ''(all)'', sm_type = ty,
                       sm_message_count = length messages, sm_summary = reply\<rparr>]\<rparr>"
      by (rule step)
    show "\<exists>d. get_digest cfg (Some sv) since = Inr d \<and>
               \<lparr>sm_group = di_name g, sm_topic = ''(all)'', sm_type = ty,
                 sm_message_count = length messages, sm_summary = reply\<rparr>
                 \<in> set (dr_summaries d)"
      by (rule digest_summaries_from_group [OF listing m]) (simp add: step)
  }
qed


theorem unknown_style_logistics_prompt_witness:
  "''bogus-style'' \<notin> {''technical'', ''memes'', ''logistics'', ''invites'', ''skip''} \<and>
   eng_window \<noteq> [] \<and> chat_window \<noteq> [] \<and>
   summarise example_services eng_window ''Eng'' ''bogus-style'' =
     ([logistics_request ''Eng'' eng_window], Inr (Some ''About Eng'')) \<and>
   (\<exists>d. get_digest bogus_config (Some example_services) 24 = Inr d \<and>
      \<lparr>sm_group = ''Team'', sm_topic = ''Eng'', sm_type = ''bogus-style'',
        sm_message_count = 2, sm_summary = ''About Eng''\<rparr> \<in> set (dr_summaries d)) \<and>
   (\<exists>d. get_digest example_config (Some example_services) 24 = Inr d \<and>
      \<lparr>sm_group = ''chat'', sm_topic = ''(all)'', sm_type = ''bogus-style'',
        sm_message_count = 1, sm_summary = ''About chat''\<rparr> \<in> set (dr_summaries d))"
proof -
  have u: "''bogus-style'' \<notin> {''technical'', ''memes'', ''logistics'', ''invites'', ''skip''}"
    by simp
  have we: "eng_window \<noteq> []" and wc: "chat_window \<noteq> []"
    by (simp_all add: eng_window_def chat_window_def)
  note eng = unknown_style_logistics_prompt [OF u we, where sv = example_services
      and name = "''Eng''" and unread = example_unread and cfg = bogus_config
      and f = team_forum and tp = eng_topic and th = 3 and since = 24
      and reply = "''About Eng''" and acc = "[]" and st = empty_state]
  note chat = unknown_style_logistics_prompt [OF u wc, where sv = example_services
      and unread = example_unread and cfg = example_config
      and g = chat_group and th = 2 and since = 24
      and reply = "''About chat''" and st = empty_state]
  have be: "messages_create example_services (logistics_request ''Eng'' eng_window)
              = Inr ''About Eng''"
    by (simp add: example_services_def logistics_request_def)
  from eng be have a: "summarise example_services eng_window ''Eng'' ''bogus-style'' =
     ([logistics_request ''Eng'' eng_window], Inr (Some ''About Eng''))"
    by simp
  have e1: "(team_forum, eng_topic) \<in> set (forum_topics bogus_config example_services example_unread)"
    by code_simp
  have e2: "resolve_topic bogus_config (di_name team_forum) (tp_title eng_topic)
              = Some (''bogus-style'', 3)"
    by code_simp
  have e3: "(3::int) \<le> get_or (tp_unread_count eng_topic) 0"
    by (simp add: eng_topic_def get_or_def)
  have e4: "get_topic_messages example_services (di_id team_forum) (tp_id eng_topic) 100 24
              = Inr eng_window"
    by (simp add: example_services_def team_forum_def eng_topic_def)
  have e5: "messages_create example_services (logistics_request (tp_title eng_topic) eng_window)
              = Inr ''About Eng''"
    by (simp add: example_services_def logistics_request_def eng_topic_def)
  have e6: "''About Eng'' \<noteq> []"
    by simp
  from eng example_listing e1 e2 e3 e4 e5 e6
  have "\<exists>d. get_digest bogus_config (Some example_services) 24 = Inr d \<and>
           \<lparr>sm_group = di_name team_forum, sm_topic = tp_title eng_topic,
             sm_type = ''bogus-style'', sm_message_count = length eng_window,
             sm_summary = ''About Eng''\<rparr> \<in> set (dr_summaries d)"
    by blast
  then have b: "\<exists>d. get_digest bogus_config (Some example_services) 24 = Inr d \<and>
      \<lparr>sm_group = ''Team'', sm_topic = ''Eng'', sm_type = ''bogus-style'',
        sm_message_count = 2, sm_summary = ''About Eng''\<rparr> \<in> set (dr_summaries d)"
    by (simp add: team_forum_def eng_topic_def eng_window_def numeral_2_eq_2)
  have c1: "chat_group \<in> set (us_groups example_unread)"
    by (simp add: example_unread_def)
  have c2: "\<not> is_excluded_group example_config (di_name chat_group)"
    by code_simp
  have c3: "resolve_group example_config (di_name chat_group) = Some (''bogus-style'', 2)"
    by code_simp
  have c4: "(2::int) \<le> di_unread_count chat_group"
    by (simp add: chat_group_def)
  have c5: "get_chat_messages example_services (di_id chat_group) 100 24 = Inr chat_window"
    by (simp add: example_services_def chat_group_def)
  have c6: "messages_create example_services (logistics_request (di_name chat_group) chat_window)
              = Inr ''About chat''"
    by (simp add: example_services_def logistics_request_def chat_group_def)
  have c7: "''About chat'' \<noteq> []"
    by simp
  from chat example_listing c1 c2 c3 c4 c5 c6 c7
  have "\<exists>d. get_digest example_config (Some example_services) 24 = Inr d \<and>
           \<lparr>sm_group = di_name chat_group, sm_topic = ''(all)'',
             sm_type = ''bogus-style'', sm_message_count = length chat_window,
             sm_summary = ''About chat''\<rparr> \<in> set (dr_summaries d)"
    by blast
  then have c: "\<exists>d. get_digest example_config (Some example_services) 24 = Inr d \<and>
      \<lparr>sm_group = ''chat'', sm_topic = ''(all)'', sm_type = ''bogus-style'',
        sm_message_count = 1, sm_summary = ''About chat''\<rparr> \<in> set (dr_summaries d)"
    by (simp add: chat_group_def chat_window_def)
  from u we wc a b c show ?thesis
    by (intro conjI)
qed

section \<open>Failures\<close>


















end
